theory Spec2Isabelle
  imports Main "HOL-Library.Multiset" "HOL-Library.Product_Lexorder" "HOL-Library.AList"
begin

section \<open>Data model (models.py)\<close>

text \<open>
  \<^verbatim>\<open>BlockType\<close> is the enum of models.py. A \<^verbatim>\<open>Block\<close> and a \<^verbatim>\<open>Laser\<close> are frozen
  dataclasses; the fields of a block are called \<open>kind\<close>, \<open>block_r\<close>, \<open>block_c\<close> and those of a
  laser \<open>laser_x\<close>, \<open>laser_y\<close>, \<open>laser_vx\<close>, \<open>laser_vy\<close> (the source's \<open>r\<close>, \<open>c\<close>, \<open>x\<close>, \<open>y\<close>,
  \<open>vx\<close>, \<open>vy\<close> would capture the variables of every statement below). Python's integers
  are unbounded: \<open>int\<close>.
\<close>

datatype BlockType = REFLECT | OPAQUE | REFRACT

datatype Block = Block (kind: BlockType) (block_r: int) (block_c: int)

datatype Laser = Laser (laser_x: int) (laser_y: int) (laser_vx: int) (laser_vy: int)

datatype error = ValueError | IndexError | KeyError

text \<open>
  \<^verbatim>\<open>str.lower\<close> and \<^verbatim>\<open>str.upper\<close> on the ASCII letters; every other character is left as
  it is (no character outside ASCII is mapped to one of the letters the code compares
  with). \<open>from_letter\<close> is \<^verbatim>\<open>BlockType.from_letter\<close>. \<open>BFFSpec\<close> is the dataclass the
  parser returns.
\<close>

definition lower_char :: "char \<Rightarrow> char" where
  "lower_char ch =
     (let n = (of_char ch :: nat) in if 65 \<le> n \<and> n \<le> 90 then char_of (n + 32) else ch)"

definition lower :: "string \<Rightarrow> string" where
  "lower s = map lower_char s"

definition upper_char :: "char \<Rightarrow> char" where
  "upper_char ch =
     (let n = (of_char ch :: nat) in if 97 \<le> n \<and> n \<le> 122 then char_of (n - 32) else ch)"

definition upper :: "string \<Rightarrow> string" where
  "upper s = map upper_char s"

definition from_letter :: "string \<Rightarrow> error + BlockType" where
  "from_letter letter =
     (let m = upper letter
      in if m = ''A'' then Inr REFLECT
         else if m = ''B'' then Inr OPAQUE
         else if m = ''C'' then Inr REFRACT
         else Inl ValueError)"

record BFFSpec =
  grid_tokens :: "string list list"
  spec_free_blocks :: "(BlockType \<times> int) list"
  spec_lasers :: "Laser list"
  spec_points :: "(int \<times> int) list"

section \<open>The board (board.py)\<close>

text \<open>
  The \<^verbatim>\<open>Board\<close> dataclass. A grid cell is a Python string. The two dictionaries are
  association lists in insertion order (the order in which Python iterates a dict);
  a lookup is \<open>map_of\<close>, an assignment is \<open>AList.update\<close>, which overwrites in place or
  appends, as a dict does. The rows of the grid are separate lists (as
  \<^verbatim>\<open>Board.from_bffspec\<close> builds them), so that an assignment to one cell changes that cell
  only; \<^verbatim>\<open>copy.deepcopy\<close> of a board is then the board itself, a value.
\<close>

record Board =
  grid :: "string list list"
  fixed_blocks :: "((int \<times> int) \<times> Block) list"
  free_blocks :: "(BlockType \<times> int) list"
  lasers :: "Laser list"
  points :: "(int \<times> int) set"

definition nrows :: "Board \<Rightarrow> int" where
  "nrows b = int (length (grid b))"

definition ncols :: "Board \<Rightarrow> int" where
  "ncols b = (case grid b of [] \<Rightarrow> 0 | row0 # _ \<Rightarrow> int (length row0))"

definition in_bounds :: "Board \<Rightarrow> int \<Rightarrow> int \<Rightarrow> bool" where
  "in_bounds b r c = (0 \<le> r \<and> r < nrows b \<and> 0 \<le> c \<and> c < ncols b)"

text \<open>
  \<^verbatim>\<open>xs[i]\<close> on a Python list: a negative index counts from the end, an index out of
  range raises \<^verbatim>\<open>IndexError\<close> (here \<open>None\<close>). \<open>grid_get b r c\<close> is \<^verbatim>\<open>board.grid[r][c]\<close>.
\<close>

definition py_index :: "'a list \<Rightarrow> int \<Rightarrow> 'a option" where
  "py_index xs i =
     (let n = int (length xs); j = (if i < 0 then i + n else i)
      in if 0 \<le> j \<and> j < n then Some (xs ! nat j) else None)"

definition grid_get :: "Board \<Rightarrow> int \<Rightarrow> int \<Rightarrow> string option" where
  "grid_get b r c = (case py_index (grid b) r of None \<Rightarrow> None | Some row \<Rightarrow> py_index row c)"

text \<open>
  \<^verbatim>\<open>is_placeable\<close> reads \<^verbatim>\<open>self.grid[r][c]\<close> outside any \<^verbatim>\<open>try\<close>: on a grid whose row
  \<open>r\<close> is shorter than row 0 the read raises \<^verbatim>\<open>IndexError\<close>.
\<close>

definition is_placeable :: "Board \<Rightarrow> int \<Rightarrow> int \<Rightarrow> error + bool" where
  "is_placeable b r c =
     (if \<not> in_bounds b r c then Inr False
      else if map_of (fixed_blocks b) (r, c) \<noteq> None then Inr False
      else (case grid_get b r c of None \<Rightarrow> Inl IndexError | Some tok \<Rightarrow> Inr (tok = ''o'')))"

definition place_block :: "Board \<Rightarrow> int \<Rightarrow> int \<Rightarrow> BlockType \<Rightarrow> error + Board" where
  "place_block b r c k =
     (case is_placeable b r c of
        Inl e \<Rightarrow> Inl e
      | Inr ok \<Rightarrow>
          if \<not> ok then Inl ValueError
          else Inr (b\<lparr>fixed_blocks := AList.update (r, c) (Block k r c) (fixed_blocks b)\<rparr>))"

text \<open>
  \<^verbatim>\<open>Board.from_bffspec\<close>: the tokens \<open>o\<close> and \<open>x\<close> (in either case) become grid cells, a
  token \<open>A\<close>, \<open>B\<close> or \<open>C\<close> becomes the cell \<open>x\<close> and a fixed block, and any other token is a
  \<^verbatim>\<open>ValueError\<close>. The free blocks, the lasers and the points of the spec are copied.
\<close>

fun row_cells :: "int \<Rightarrow> int \<Rightarrow> string list \<Rightarrow> error + (string list \<times> ((int \<times> int) \<times> Block) list)" where
  "row_cells r c [] = Inr ([], [])"
| "row_cells r c (tok # toks) =
     (let up = upper tok
      in if up \<in> set [''O'', ''X''] then
           (case row_cells r (c + 1) toks of
              Inl e \<Rightarrow> Inl e
            | Inr (new_row, fixed) \<Rightarrow> Inr (lower up # new_row, fixed))
         else if up \<in> set [''A'', ''B'', ''C''] then
           (case from_letter up of
              Inl e \<Rightarrow> Inl e
            | Inr k \<Rightarrow>
                (case row_cells r (c + 1) toks of
                   Inl e \<Rightarrow> Inl e
                 | Inr (new_row, fixed) \<Rightarrow> Inr (''x'' # new_row, ((r, c), Block k r c) # fixed)))
         else Inl ValueError)"

fun grid_cells ::
  "int \<Rightarrow> string list list \<Rightarrow> error + (string list list \<times> ((int \<times> int) \<times> Block) list)" where
  "grid_cells r [] = Inr ([], [])"
| "grid_cells r (row # rows) =
     (case row_cells r 0 row of
        Inl e \<Rightarrow> Inl e
      | Inr (new_row, fixed) \<Rightarrow>
          (case grid_cells (r + 1) rows of
             Inl e \<Rightarrow> Inl e
           | Inr (g, fixed') \<Rightarrow> Inr (new_row # g, fixed @ fixed')))"

definition from_bffspec :: "BFFSpec \<Rightarrow> error + Board" where
  "from_bffspec spec =
     (case grid_cells 0 (grid_tokens spec) of
        Inl e \<Rightarrow> Inl e
      | Inr (g, fixed) \<Rightarrow>
          Inr \<lparr>grid = g, fixed_blocks = fixed, free_blocks = spec_free_blocks spec,
               lasers = spec_lasers spec, points = set (spec_points spec)\<rparr>)"

section \<open>The parser (parser.py)\<close>

text \<open>
  \<open>parse_bff_lines\<close> is \<^verbatim>\<open>parse_bff\<close> from the list \<^verbatim>\<open>lines\<close> on: its argument is the
  file's lines after \<^verbatim>\<open>_normalize\<close>, the empty ones dropped, so every line is trimmed and
  its only white space is single blanks. On such a line \<^verbatim>\<open>\s+\<close> matches one blank, the
  groups of a pattern are the words of \<^verbatim>\<open>ln.split(' ')\<close>, and the two \<^verbatim>\<open>GRID\<close> patterns
  (case-insensitive) match the line whose lower case is \<open>grid start\<close> or \<open>grid stop\<close>.
  Digits are the ASCII digits. The flag of \<open>parse_loop\<close> is the source's \<^verbatim>\<open>in_grid\<close>: inside
  a grid block every line up to \<^verbatim>\<open>GRID STOP\<close> is a row, and the end of the file there is
  the error \<^verbatim>\<open>GRID STOP not found\<close>. (The error \<^verbatim>\<open>Nested GRID START found\<close> cannot
  occur: \<^verbatim>\<open>in_grid\<close> is false whenever a line is matched against \<^verbatim>\<open>GRID START\<close>.) After
  the loop an empty or non-rectangular grid is a \<^verbatim>\<open>ValueError\<close>.
\<close>

fun split_on :: "char \<Rightarrow> string \<Rightarrow> string list" where
  "split_on sep [] = [[]]"
| "split_on sep (ch # rest) =
     (if ch = sep then [] # split_on sep rest
      else (case split_on sep rest of [] \<Rightarrow> [[ch]] | w # ws \<Rightarrow> (ch # w) # ws))"

definition is_digit :: "char \<Rightarrow> bool" where
  "is_digit ch = (let n = (of_char ch :: nat) in 48 \<le> n \<and> n \<le> 57)"

definition is_digits :: "string \<Rightarrow> bool" where
  "is_digits s = (s \<noteq> [] \<and> list_all is_digit s)"

definition is_int_token :: "string \<Rightarrow> bool" where
  "is_int_token s = (case s of [] \<Rightarrow> False | ch # ds \<Rightarrow> if ch = CHR ''-'' then is_digits ds else is_digits s)"

definition nat_of_digits :: "string \<Rightarrow> nat" where
  "nat_of_digits s = foldl (\<lambda>acc ch. 10 * acc + (of_char ch - 48)) 0 s"

definition int_of_token :: "string \<Rightarrow> int" where
  "int_of_token s =
     (case s of
        [] \<Rightarrow> 0
      | ch # ds \<Rightarrow> if ch = CHR ''-'' then - int (nat_of_digits ds) else int (nat_of_digits s))"

definition is_grid_start :: "string \<Rightarrow> bool" where
  "is_grid_start ln = (lower ln = ''grid start'')"

definition is_grid_stop :: "string \<Rightarrow> bool" where
  "is_grid_stop ln = (lower ln = ''grid stop'')"

definition count_of_line :: "string \<Rightarrow> (BlockType \<times> int) option" where
  "count_of_line ln =
     (case split_on CHR '' '' ln of
        [typ, n] \<Rightarrow>
          if typ \<in> set [''A'', ''B'', ''C'', ''a'', ''b'', ''c''] \<and> is_digits n
          then (case from_letter typ of Inl e \<Rightarrow> None | Inr t \<Rightarrow> Some (t, int (nat_of_digits n)))
          else None
      | _ \<Rightarrow> None)"

definition laser_of_line :: "string \<Rightarrow> Laser option" where
  "laser_of_line ln =
     (case split_on CHR '' '' ln of
        [l, sx, sy, svx, svy] \<Rightarrow>
          if l \<in> set [''L'', ''l''] \<and> is_int_token sx \<and> is_int_token sy
             \<and> is_int_token svx \<and> is_int_token svy
          then Some (Laser (int_of_token sx) (int_of_token sy) (int_of_token svx) (int_of_token svy))
          else None
      | _ \<Rightarrow> None)"

definition point_of_line :: "string \<Rightarrow> (int \<times> int) option" where
  "point_of_line ln =
     (case split_on CHR '' '' ln of
        [p, sx, sy] \<Rightarrow>
          if p \<in> set [''P'', ''p''] \<and> is_int_token sx \<and> is_int_token sy
          then Some (int_of_token sx, int_of_token sy)
          else None
      | _ \<Rightarrow> None)"

record parse_state =
  grid_rows :: "string list list"
  parsed_free_blocks :: "(BlockType \<times> int) list"
  parsed_lasers :: "Laser list"
  parsed_points :: "(int \<times> int) list"

fun parse_loop :: "bool \<Rightarrow> parse_state \<Rightarrow> string list \<Rightarrow> error + parse_state" where
  "parse_loop True st [] = Inl ValueError"
| "parse_loop True st (ln # rest) =
     (if is_grid_stop ln then parse_loop False st rest
      else parse_loop True
             (st\<lparr>grid_rows := grid_rows st @ [filter (\<lambda>tok. tok \<noteq> []) (split_on CHR '' '' ln)]\<rparr>)
             rest)"
| "parse_loop False st [] = Inr st"
| "parse_loop False st (ln # rest) =
     (if is_grid_start ln then parse_loop True st rest
      else (case count_of_line ln of
              Some (t, n) \<Rightarrow>
                parse_loop False
                  (st\<lparr>parsed_free_blocks := AList.update t n (parsed_free_blocks st)\<rparr>) rest
            | None \<Rightarrow>
                (case laser_of_line ln of
                   Some l \<Rightarrow> parse_loop False (st\<lparr>parsed_lasers := parsed_lasers st @ [l]\<rparr>) rest
                 | None \<Rightarrow>
                     (case point_of_line ln of
                        Some p \<Rightarrow>
                          parse_loop False (st\<lparr>parsed_points := parsed_points st @ [p]\<rparr>) rest
                      | None \<Rightarrow> Inl ValueError))))"

definition parse_init :: parse_state where
  "parse_init = \<lparr>grid_rows = [], parsed_free_blocks = [(REFLECT, 0), (OPAQUE, 0), (REFRACT, 0)],
     parsed_lasers = [], parsed_points = []\<rparr>"

definition parse_bff_lines :: "string list \<Rightarrow> error + BFFSpec" where
  "parse_bff_lines lines =
     (case parse_loop False parse_init lines of
        Inl e \<Rightarrow> Inl e
      | Inr st \<Rightarrow>
          (case grid_rows st of
             [] \<Rightarrow> Inl ValueError
           | row0 # _ \<Rightarrow>
               if list_all (\<lambda>row. length row = length row0) (grid_rows st)
               then Inr \<lparr>grid_tokens = grid_rows st, spec_free_blocks = parsed_free_blocks st,
                         spec_lasers = parsed_lasers st, spec_points = parsed_points st\<rparr>
               else Inl ValueError))"

section \<open>The simulator (lazor\_core/simulator.py)\<close>

text \<open>
  \<^verbatim>\<open>_block_ch_at\<close>: the character in the grid wins when it lowers to one of
  \<open>a\<close>, \<open>b\<close>, \<open>c\<close>, \<open>d\<close>; a failed read of the grid is swallowed by the \<^verbatim>\<open>try\<close>; then
  \<^verbatim>\<open>fixed_blocks\<close> is the fallback, where a Reflect block is always \<open>a\<close>.
\<close>

definition fixed_ch :: "Board \<Rightarrow> int \<Rightarrow> int \<Rightarrow> string option" where
  "fixed_ch b r c =
     (case map_of (fixed_blocks b) (r, c) of
        None \<Rightarrow> None
      | Some blk \<Rightarrow>
          (case kind blk of REFLECT \<Rightarrow> Some ''a'' | OPAQUE \<Rightarrow> Some ''b'' | REFRACT \<Rightarrow> Some ''c''))"

definition block_ch_at :: "Board \<Rightarrow> int \<Rightarrow> int \<Rightarrow> string option" where
  "block_ch_at b r c =
     (if \<not> in_bounds b r c then None
      else (case grid_get b r c of
              None \<Rightarrow> fixed_ch b r c
            | Some gch \<Rightarrow>
                if lower gch \<in> set [''a'', ''b'', ''c'', ''d''] then Some (lower gch)
                else fixed_ch b r c))"

definition reflect_slash :: "int \<Rightarrow> int \<Rightarrow> int \<times> int" where
  "reflect_slash vx vy = (- vy, - vx)"

definition reflect_backslash :: "int \<Rightarrow> int \<Rightarrow> int \<times> int" where
  "reflect_backslash vx vy = (vy, vx)"

definition interact :: "string \<Rightarrow> int \<Rightarrow> int \<Rightarrow> string \<Rightarrow> (int \<times> int) list" where
  "interact block_ch vx vy boundary =
     (if block_ch = ''b'' then []
      else if block_ch = ''a'' then [reflect_slash vx vy]
      else if block_ch = ''d'' then [reflect_backslash vx vy]
      else if block_ch = ''c'' then
        (let passing = (vx, vy);
             reflected = (if boundary = ''vertical'' then (- vx, vy)
                          else if boundary = ''horizontal'' then (vx, - vy)
                          else (- vx, - vy))
         in [passing, reflected])
      else [(vx, vy)])"

text \<open>
  \<^verbatim>\<open>if ch:\<close> on an optional string: \<^verbatim>\<open>None\<close> and the empty string are false.
  \<open>first_block\<close> is the loop \<^verbatim>\<open>for r, cc in candidates\<close> of the two edge lookups.
\<close>

definition truthy :: "string option \<Rightarrow> bool" where
  "truthy s = (case s of None \<Rightarrow> False | Some t \<Rightarrow> t \<noteq> [])"

fun first_block :: "Board \<Rightarrow> (int \<times> int) list \<Rightarrow> string option" where
  "first_block b [] = None"
| "first_block b ((r, c) # rest) =
     (let ch = block_ch_at b r c in if truthy ch then ch else first_block b rest)"

definition block_across_vertical_edge :: "Board \<Rightarrow> int \<Rightarrow> int \<Rightarrow> int \<Rightarrow> string option" where
  "block_across_vertical_edge b mx y vy =
     (if mx mod 2 \<noteq> 1 then None
      else
        (let c = (mx - 1) div 2;
             up_r = (y - 1) div 2;
             down_r = (y + 1) div 2;
             candidates = (if vy > 0 then [(down_r, c), (up_r, c)]
                           else if vy < 0 then [(up_r, c), (down_r, c)]
                           else [(up_r, c), (down_r, c)])
         in first_block b candidates))"

definition block_across_horizontal_edge :: "Board \<Rightarrow> int \<Rightarrow> int \<Rightarrow> int \<Rightarrow> string option" where
  "block_across_horizontal_edge b x my vx =
     (if my mod 2 \<noteq> 1 then None
      else
        (let r = (my - 1) div 2;
             left_c = (x - 1) div 2;
             right_c = (x + 1) div 2;
             candidates = (if vx > 0 then [(r, right_c), (r, left_c)]
                           else if vx < 0 then [(r, left_c), (r, right_c)]
                           else [(r, left_c), (r, right_c)])
         in first_block b candidates))"

text \<open>
  \<open>collect_interactions\<close> is the first half of \<^verbatim>\<open>_step_and_collide\<close>: the list
  \<^verbatim>\<open>interactions\<close> of (boundary, block character) pairs. \<open>opt_interaction\<close> is
  \<^verbatim>\<open>if blk: interactions.append((boundary, blk))\<close>.
\<close>

definition opt_interaction :: "string \<Rightarrow> string option \<Rightarrow> (string \<times> string) list" where
  "opt_interaction boundary blk =
     (case blk of None \<Rightarrow> [] | Some ch \<Rightarrow> if ch \<noteq> [] then [(boundary, ch)] else [])"

definition collect_interactions ::
  "Board \<Rightarrow> int \<Rightarrow> int \<Rightarrow> int \<Rightarrow> int \<Rightarrow> (string \<times> string) list" where
  "collect_interactions b x y vx vy =
     (let nx = x + vx; ny = y + vy;
          mx = (x + nx) div 2; my = (y + ny) div 2;
          hit_vertical = (mx mod 2 = 1);
          hit_horizontal = (my mod 2 = 1)
      in if hit_vertical \<and> hit_horizontal then
           (let corner_block = block_ch_at b ((my - 1) div 2) ((mx - 1) div 2)
            in if \<not> truthy corner_block then
                 opt_interaction ''vertical'' (block_across_vertical_edge b mx y vy)
                 @ opt_interaction ''horizontal'' (block_across_horizontal_edge b x my vx)
               else opt_interaction ''corner'' corner_block)
         else
           (if hit_vertical
            then opt_interaction ''vertical'' (block_across_vertical_edge b mx y vy) else [])
           @ (if hit_horizontal
              then opt_interaction ''horizontal'' (block_across_horizontal_edge b x my vx)
              else []))"

text \<open>
  The second half: the interactions are applied one after another, each to every beam
  the previous one left; the loop stops as soon as no beam is left.
\<close>

definition interact_all :: "string \<Rightarrow> string \<Rightarrow> (int \<times> int) list \<Rightarrow> (int \<times> int) list" where
  "interact_all boundary block_ch beams =
     concat (map (\<lambda>(bvx, bvy). interact block_ch bvx bvy boundary) beams)"

fun apply_interactions :: "(int \<times> int) list \<Rightarrow> (string \<times> string) list \<Rightarrow> (int \<times> int) list" where
  "apply_interactions beams [] = beams"
| "apply_interactions beams ((boundary, block_ch) # rest) =
     (let next_beams = interact_all boundary block_ch beams
      in if next_beams = [] then next_beams else apply_interactions next_beams rest)"

definition step_and_collide ::
  "Board \<Rightarrow> int \<Rightarrow> int \<Rightarrow> int \<Rightarrow> int \<Rightarrow> int \<times> int \<times> (int \<times> int) list" where
  "step_and_collide b x y vx vy =
     (x + vx, y + vy, apply_interactions [(vx, vy)] (collect_interactions b x y vx vy))"

text \<open>
  The state of the main loop of \<^verbatim>\<open>simulate_board\<close>: the deque, the set of visited
  (position, direction) keys, the hit points and the iteration counter.
\<close>

record sim_state =
  active_lasers :: "Laser list"
  visited_states :: "(int \<times> int \<times> int \<times> int) set"
  hit_points :: "(int \<times> int) set"
  iteration :: nat

definition max_iterations :: nat where
  "max_iterations = 5000"

definition off_board :: "Board \<Rightarrow> int \<Rightarrow> int \<Rightarrow> bool" where
  "off_board b px py =
     (py < - 10 \<or> py > nrows b * 2 + 10 \<or> px < - 10 \<or> px > ncols b * 2 + 10)"

text \<open>
  The loop \<^verbatim>\<open>for vx, vy in out_dirs\<close>: a direction whose next position is off the board
  is skipped, a state key already visited is skipped, and every other beam is recorded
  as visited and appended to the deque.
\<close>

fun enqueue_dirs ::
  "Board \<Rightarrow> int \<Rightarrow> int \<Rightarrow> (int \<times> int) list \<Rightarrow> (int \<times> int \<times> int \<times> int) set \<Rightarrow> Laser list
   \<Rightarrow> (int \<times> int \<times> int \<times> int) set \<times> Laser list" where
  "enqueue_dirs b new_x new_y [] vis q = (vis, q)"
| "enqueue_dirs b new_x new_y ((vx, vy) # ds) vis q =
     (if off_board b (new_x + vx) (new_y + vy) then enqueue_dirs b new_x new_y ds vis q
      else if (new_x, new_y, vx, vy) \<in> vis then enqueue_dirs b new_x new_y ds vis q
      else enqueue_dirs b new_x new_y ds (insert (new_x, new_y, vx, vy) vis)
             (q @ [Laser new_x new_y vx vy]))"

text \<open>
  One iteration of the \<^verbatim>\<open>while\<close> loop, entered with a non-empty deque (the loop
  condition); on an empty deque the state is returned as it is. The test before
  \<^verbatim>\<open>hit_points.add((laser.x, laser.y))\<close> reads \<^verbatim>\<open>board.lasers[0]\<close> only when
  \<^verbatim>\<open>iteration > len(board.lasers)\<close> is false, that is, when there is a first laser.
\<close>

definition records_start :: "Board \<Rightarrow> nat \<Rightarrow> Laser \<Rightarrow> bool" where
  "records_start b it laser =
     (it > length (lasers b) \<or>
      (case lasers b of
         [] \<Rightarrow> True
       | l0 # _ \<Rightarrow> (laser_x laser, laser_y laser) \<noteq> (laser_x l0, laser_y l0)))"

definition sim_iter :: "Board \<Rightarrow> sim_state \<Rightarrow> sim_state" where
  "sim_iter b s =
     (case active_lasers s of
        [] \<Rightarrow> s
      | laser # rest \<Rightarrow>
          (let it = iteration s + 1;
               hp1 = (if records_start b it laser
                      then insert (laser_x laser, laser_y laser) (hit_points s)
                      else hit_points s);
               (new_x, new_y, out_dirs) =
                  step_and_collide b (laser_x laser) (laser_y laser) (laser_vx laser) (laser_vy laser);
               hp2 = insert (new_x, new_y) hp1
           in if off_board b new_x new_y
              then \<lparr>active_lasers = rest, visited_states = visited_states s,
                    hit_points = hp2, iteration = it\<rparr>
              else (let (vis, q) = enqueue_dirs b new_x new_y out_dirs (visited_states s) rest
                    in \<lparr>active_lasers = q, visited_states = vis,
                        hit_points = hp2, iteration = it\<rparr>)))"

text \<open>
  The \<^verbatim>\<open>while\<close> loop. Every iteration increases the counter, which the loop condition
  bounds by \<open>max_iterations\<close>: this is the measure of termination.
\<close>

function sim_loop :: "Board \<Rightarrow> sim_state \<Rightarrow> sim_state" where
  "sim_loop b s =
     (if active_lasers s \<noteq> [] \<and> iteration s < max_iterations
      then sim_loop b (sim_iter b s) else s)"
  by pat_completeness auto
termination
  by (relation "measure (\<lambda>(b, s). max_iterations - iteration s)")
     (auto simp: sim_iter_def Let_def split: list.splits prod.splits)

definition sim_init :: "Board \<Rightarrow> sim_state" where
  "sim_init b = \<lparr>active_lasers = lasers b, visited_states = {}, hit_points = {}, iteration = 0\<rparr>"

definition simulate_board :: "Board \<Rightarrow> (int \<times> int) set" where
  "simulate_board b = hit_points (sim_loop b (sim_init b))"

declare sim_loop.simps [simp del]

text \<open>
  The history of the deque, for the claims about what is enqueued. \<open>state_key\<close> is the
  tuple \<^verbatim>\<open>state_key = (new_x, new_y, vx, vy)\<close> of a beam; \<open>appended b s\<close> is what one
  iteration appends to the deque (the deque after the iteration, without what was left of
  the old one); \<open>sim_loop_log\<close> is \<open>sim_loop\<close> with a log of everything appended, which
  the loop itself never reads.
\<close>

definition state_key :: "Laser \<Rightarrow> int \<times> int \<times> int \<times> int" where
  "state_key l = (laser_x l, laser_y l, laser_vx l, laser_vy l)"

definition appended :: "Board \<Rightarrow> sim_state \<Rightarrow> Laser list" where
  "appended b s = drop (length (active_lasers s) - 1) (active_lasers (sim_iter b s))"

function sim_loop_log :: "Board \<Rightarrow> sim_state \<Rightarrow> Laser list \<Rightarrow> sim_state \<times> Laser list" where
  "sim_loop_log b s log =
     (if active_lasers s \<noteq> [] \<and> iteration s < max_iterations
      then sim_loop_log b (sim_iter b s) (log @ appended b s) else (s, log))"
  by pat_completeness auto
termination
  by (relation "measure (\<lambda>(b, s, log). max_iterations - iteration s)")
     (auto simp: sim_iter_def Let_def split: list.splits prod.splits)

declare sim_loop_log.simps [simp del]

text \<open>
  The end points of the steps of a run: \<open>step_endpoints\<close> follows \<open>sim_loop\<close> and collects
  the position \<^verbatim>\<open>(new_x, new_y)\<close> of every step taken, and nothing else.
\<close>

definition step_endpoint :: "Board \<Rightarrow> Laser \<Rightarrow> int \<times> int" where
  "step_endpoint b laser =
     (case step_and_collide b (laser_x laser) (laser_y laser) (laser_vx laser) (laser_vy laser) of
        (new_x, new_y, out_dirs) \<Rightarrow> (new_x, new_y))"

function step_endpoints :: "Board \<Rightarrow> sim_state \<Rightarrow> (int \<times> int) set \<Rightarrow> (int \<times> int) set" where
  "step_endpoints b s acc =
     (if active_lasers s \<noteq> [] \<and> iteration s < max_iterations
      then step_endpoints b (sim_iter b s) (insert (step_endpoint b (hd (active_lasers s))) acc)
      else acc)"
  by pat_completeness auto
termination
  by (relation "measure (\<lambda>(b, s, acc). max_iterations - iteration s)")
     (auto simp: sim_iter_def Let_def split: list.splits prod.splits)

declare step_endpoints.simps [simp del]

section \<open>The solver (lazor\_core/solver.py)\<close>

text \<open>
  \<^verbatim>\<open>get_placeable_positions\<close>: the cells in row-major order; the first failing read of
  the grid ends the scan with its error.
\<close>

definition all_cells :: "Board \<Rightarrow> (int \<times> int) list" where
  "all_cells b = concat (map (\<lambda>r. map (\<lambda>c. (r, c)) [0..ncols b - 1]) [0..nrows b - 1])"

fun collect_placeable :: "Board \<Rightarrow> (int \<times> int) list \<Rightarrow> error + (int \<times> int) list" where
  "collect_placeable b [] = Inr []"
| "collect_placeable b ((r, c) # rest) =
     (case is_placeable b r c of
        Inl e \<Rightarrow> Inl e
      | Inr ok \<Rightarrow>
          (case collect_placeable b rest of
             Inl e \<Rightarrow> Inl e
           | Inr ps \<Rightarrow> Inr (if ok then (r, c) # ps else ps)))"

definition get_placeable_positions :: "Board \<Rightarrow> error + (int \<times> int) list" where
  "get_placeable_positions b = collect_placeable b (all_cells b)"

text \<open>\<^verbatim>\<open>[block_type] * count\<close> is empty for a count below one.\<close>

definition get_blocks_to_place :: "Board \<Rightarrow> BlockType list" where
  "get_blocks_to_place b = concat (map (\<lambda>(t, n). replicate (nat n) t) (free_blocks b))"

definition board_bounds :: "Board \<Rightarrow> int \<times> int \<times> int \<times> int" where
  "board_bounds b = (0, ncols b * 2, 0, nrows b * 2)"

text \<open>
  \<^verbatim>\<open>_hot_slots_by_empty_trace\<close>. \<open>hot_candidates\<close> lists, in the order of the three
  blocks of the loop body, the cells whose grid token the body reads at one step (the
  range tests \<^verbatim>\<open>0 <= r < board.nrows\<close>, \<^verbatim>\<open>0 <= c < board.ncols\<close> done); \<open>mark_open\<close>
  reads each one (\<^verbatim>\<open>board.grid[r][c] == "o"\<close>, an \<^verbatim>\<open>IndexError\<close> on a short row) and adds
  the open ones to \<^verbatim>\<open>hot\<close>.
\<close>

definition hot_candidates :: "Board \<Rightarrow> int \<Rightarrow> int \<Rightarrow> int \<Rightarrow> int \<Rightarrow> (int \<times> int) list" where
  "hot_candidates b x y vx vy =
     (let nx = x + vx; ny = y + vy;
          mx = (x + nx) div 2; my = (y + ny) div 2
      in (if vx \<noteq> 0 \<and> vy = 0 \<and> mx mod 2 = 1 then
            (let c = (mx - 1) div 2
             in if 0 \<le> c \<and> c < ncols b
                then filter (\<lambda>(r, c'). 0 \<le> r \<and> r < nrows b) [((y - 1) div 2, c), ((y + 1) div 2, c)]
                else [])
          else [])
         @ (if vx = 0 \<and> vy \<noteq> 0 \<and> my mod 2 = 1 then
              (let r = (my - 1) div 2
               in if 0 \<le> r \<and> r < nrows b
                  then filter (\<lambda>(r', c). 0 \<le> c \<and> c < ncols b) [(r, (x - 1) div 2), (r, (x + 1) div 2)]
                  else [])
            else [])
         @ (if vx \<noteq> 0 \<and> vy \<noteq> 0 then
              (if mx mod 2 = 1 \<and> my mod 2 = 1 then
                 (let r_base = (my - 1) div 2; c_base = (mx - 1) div 2
                  in filter (\<lambda>(rr, cc). 0 \<le> rr \<and> rr < nrows b \<and> 0 \<le> cc \<and> cc < ncols b)
                       (concat (map (\<lambda>dr. map (\<lambda>dc. (r_base + dr, c_base + dc)) [- 1, 0, 1])
                                    [- 1, 0, 1])))
               else [])
            else []))"

fun mark_open :: "Board \<Rightarrow> (int \<times> int) list \<Rightarrow> (int \<times> int) set \<Rightarrow> error + (int \<times> int) set" where
  "mark_open b [] hot = Inr hot"
| "mark_open b ((r, c) # rest) hot =
     (case grid_get b r c of
        None \<Rightarrow> Inl IndexError
      | Some tok \<Rightarrow> mark_open b rest (if tok = ''o'' then insert (r, c) hot else hot))"

text \<open>
  The \<^verbatim>\<open>while\<close> loop that traces one laser, with the bounds of \<^verbatim>\<open>_board_bounds\<close> as
  arguments; \<^verbatim>\<open>steps\<close> counts up to \<^verbatim>\<open>max_steps = (xmax + ymax) * 2\<close>, which is the
  measure of termination. The two \<^verbatim>\<open>break\<close>s leave the loop with the set collected.
\<close>

function hot_trace_loop ::
  "Board \<Rightarrow> int \<Rightarrow> int \<Rightarrow> int \<Rightarrow> int \<Rightarrow> int \<Rightarrow> int \<Rightarrow> int \<Rightarrow> int
   \<Rightarrow> (int \<times> int \<times> int \<times> int) set \<Rightarrow> int \<Rightarrow> (int \<times> int) set \<Rightarrow> error + (int \<times> int) set" where
  "hot_trace_loop b xmin xmax ymin ymax vx vy x y seen steps hot =
     (if xmin - 2 \<le> x \<and> x \<le> xmax + 2 \<and> ymin - 2 \<le> y \<and> y \<le> ymax + 2
         \<and> steps < (xmax + ymax) * 2
      then
        (case mark_open b (hot_candidates b x y vx vy) hot of
           Inl e \<Rightarrow> Inl e
         | Inr hot' \<Rightarrow>
             if (x + vx, y + vy, vx, vy) \<in> seen then Inr hot'
             else if \<bar>x + vx\<bar> > xmax + 10 \<or> \<bar>y + vy\<bar> > ymax + 10 then Inr hot'
             else hot_trace_loop b xmin xmax ymin ymax vx vy (x + vx) (y + vy)
                    (insert (x + vx, y + vy, vx, vy) seen) (steps + 1) hot')
      else Inr hot)"
  by pat_completeness auto
termination
  by (relation "measure (\<lambda>(b, xmin, xmax, ymin, ymax, vx, vy, x, y, seen, steps, hot).
                  nat ((xmax + ymax) * 2 - steps))")
     auto

declare hot_trace_loop.simps [simp del]

fun hot_trace_lasers :: "Board \<Rightarrow> Laser list \<Rightarrow> (int \<times> int) set \<Rightarrow> error + (int \<times> int) set" where
  "hot_trace_lasers b [] hot = Inr hot"
| "hot_trace_lasers b (l # ls) hot =
     (case board_bounds b of
        (xmin, xmax, ymin, ymax) \<Rightarrow>
          (case hot_trace_loop b xmin xmax ymin ymax (laser_vx l) (laser_vy l)
                  (laser_x l) (laser_y l) {} 0 hot of
             Inl e \<Rightarrow> Inl e
           | Inr hot' \<Rightarrow> hot_trace_lasers b ls hot'))"

definition hot_slots_by_empty_trace :: "Board \<Rightarrow> error + (int \<times> int) set" where
  "hot_slots_by_empty_trace b = hot_trace_lasers b (lasers b) {}"

text \<open>
  Python's \<^verbatim>\<open>sorted\<close> is stable, as \<open>sort_key\<close> is; a key that is a tuple is compared
  lexicographically, \<^verbatim>\<open>False\<close> before \<^verbatim>\<open>True\<close>.
\<close>

definition sort_slots_by_laser_proximity ::
  "Board \<Rightarrow> (int \<times> int) list \<Rightarrow> error + (int \<times> int) list" where
  "sort_slots_by_laser_proximity b slots =
     (case hot_slots_by_empty_trace b of
        Inl e \<Rightarrow> Inl e
      | Inr hot \<Rightarrow> Inr (sort_key (\<lambda>rc. (rc \<notin> hot, fst rc, snd rc)) slots))"

definition dist_to_targets :: "(int \<times> int) set \<Rightarrow> int \<times> int \<Rightarrow> int" where
  "dist_to_targets targets rc =
     (let x = 2 * snd rc + 1; y = 2 * fst rc + 1
      in if targets = {} then 0
         else Min ((\<lambda>(tx, ty). \<bar>x - tx\<bar> + \<bar>y - ty\<bar>) ` targets))"

definition sort_slots_target_first ::
  "Board \<Rightarrow> (int \<times> int) list \<Rightarrow> error + (int \<times> int) list" where
  "sort_slots_target_first b slots =
     (case sort_slots_by_laser_proximity b slots of
        Inl e \<Rightarrow> Inl e
      | Inr base_sorted \<Rightarrow> Inr (sort_key (dist_to_targets (points b)) base_sorted))"

text \<open>
  \<^verbatim>\<open>itertools.combinations\<close>, \<^verbatim>\<open>itertools.permutations\<close> and
  \<^verbatim>\<open>itertools.product(('a', 'd'), repeat=n)\<close>, each in the order itertools yields:
  lexicographic in the positions of the input.
\<close>

fun combinations :: "'a list \<Rightarrow> nat \<Rightarrow> 'a list list" where
  "combinations xs 0 = [[]]"
| "combinations [] (Suc k) = []"
| "combinations (x # xs) (Suc k) = map ((#) x) (combinations xs k) @ combinations xs (Suc k)"

primrec perms_of_length :: "nat \<Rightarrow> 'a list \<Rightarrow> 'a list list" where
  "perms_of_length 0 xs = [[]]"
| "perms_of_length (Suc n) xs =
     concat (map (\<lambda>i. map ((#) (xs ! i)) (perms_of_length n (take i xs @ drop (Suc i) xs)))
                 [0..<length xs])"

definition permutations :: "'a list \<Rightarrow> 'a list list" where
  "permutations xs = perms_of_length (length xs) xs"

primrec orientation_product :: "nat \<Rightarrow> string list list" where
  "orientation_product 0 = [[]]"
| "orientation_product (Suc n) =
     concat (map (\<lambda>ch. map ((#) ch) (orientation_product n)) [''a'', ''d''])"

text \<open>
  \<^verbatim>\<open>solve\<close>. The inner loop places the blocks of one permutation on the cells of one
  combination; \<^verbatim>\<open>place_block\<close>'s \<^verbatim>\<open>ValueError\<close> is not caught. The permutations are
  iterated as \<^verbatim>\<open>set(permutations(blocks_to_place))\<close>: the order in which Python
  iterates that set depends on the hashes of its elements and is not fixed by the source,
  so it is the parameter \<open>set_order\<close>, applied to the distinct permutations.
\<close>

fun place_blocks :: "Board \<Rightarrow> ((int \<times> int) \<times> BlockType) list \<Rightarrow> error + Board" where
  "place_blocks tb [] = Inr tb"
| "place_blocks tb (((r, c), k) # rest) =
     (case place_block tb r c k of Inl e \<Rightarrow> Inl e | Inr tb' \<Rightarrow> place_blocks tb' rest)"

fun first_solution :: "(int \<times> int) set \<Rightarrow> (error + Board) list \<Rightarrow> error + Board option" where
  "first_solution pts [] = Inr None"
| "first_solution pts (Inl e # rest) = Inl e"
| "first_solution pts (Inr tb # rest) =
     (if pts \<subseteq> simulate_board tb then Inr (Some tb) else first_solution pts rest)"

definition solve_candidates ::
  "(BlockType list list \<Rightarrow> BlockType list list) \<Rightarrow> Board \<Rightarrow> (int \<times> int) list \<Rightarrow> BlockType list
   \<Rightarrow> (error + Board) list" where
  "solve_candidates set_order b positions blocks_to_place =
     concat (map (\<lambda>pos_combination.
                    map (\<lambda>block_permutation.
                           place_blocks b (zip pos_combination block_permutation))
                        (set_order (remdups (permutations blocks_to_place))))
                 (combinations positions (length blocks_to_place)))"

definition solve ::
  "(BlockType list list \<Rightarrow> BlockType list list) \<Rightarrow> Board \<Rightarrow> error + Board option" where
  "solve set_order b =
     (case get_placeable_positions b of
        Inl e \<Rightarrow> Inl e
      | Inr positions \<Rightarrow>
          (let blocks_to_place = get_blocks_to_place b
           in if blocks_to_place = [] then
                (if points b \<subseteq> simulate_board b then Inr (Some b) else Inr None)
              else first_solution (points b)
                     (solve_candidates set_order b positions blocks_to_place)))"

text \<open>
  \<^verbatim>\<open>solve_optimized\<close>. \<open>generate_unique_permutations\<close> yields the list itself when it
  holds one type only, and otherwise the permutations in order, each the first time it is
  seen. A candidate is one combination of cells, one permutation of the blocks and one
  choice of orientations: every block is placed with \<^verbatim>\<open>place_block\<close> and its character
  is written into the grid (\<open>grid_set\<close> is \<^verbatim>\<open>test_board.grid[r][c] = ch\<close>). A
  \<^verbatim>\<open>ValueError\<close> skips the candidate; any other error leaves the function.
\<close>

fun unique_first :: "'a set \<Rightarrow> 'a list \<Rightarrow> 'a list" where
  "unique_first seen [] = []"
| "unique_first seen (x # xs) =
     (if x \<in> seen then unique_first seen xs else x # unique_first (insert x seen) xs)"

definition generate_unique_permutations :: "BlockType list \<Rightarrow> BlockType list list" where
  "generate_unique_permutations blocks_list =
     (if length (remdups blocks_list) = 1 then [blocks_list]
      else unique_first {} (permutations blocks_list))"

definition py_norm :: "'a list \<Rightarrow> int \<Rightarrow> nat" where
  "py_norm xs i = nat (if i < 0 then i + int (length xs) else i)"

definition grid_set :: "Board \<Rightarrow> int \<Rightarrow> int \<Rightarrow> string \<Rightarrow> error + Board" where
  "grid_set b r c v =
     (case py_index (grid b) r of
        None \<Rightarrow> Inl IndexError
      | Some row \<Rightarrow>
          (case py_index row c of
             None \<Rightarrow> Inl IndexError
           | Some _ \<Rightarrow>
               Inr (b\<lparr>grid := (grid b)[py_norm (grid b) r := row[py_norm row c := v]]\<rparr>)))"

definition reflect_positions :: "(int \<times> int) list \<Rightarrow> BlockType list \<Rightarrow> (int \<times> int) list" where
  "reflect_positions pos_combo block_perm =
     map fst (filter (\<lambda>(p, bt). bt = REFLECT) (zip pos_combo block_perm))"

definition block_character :: "((int \<times> int) \<rightharpoonup> string) \<Rightarrow> int \<Rightarrow> int \<Rightarrow> BlockType \<Rightarrow> error + string" where
  "block_character orient_map r c bt =
     (case bt of
        REFLECT \<Rightarrow> (case orient_map (r, c) of None \<Rightarrow> Inl KeyError | Some ch \<Rightarrow> Inr ch)
      | OPAQUE \<Rightarrow> Inr ''b''
      | REFRACT \<Rightarrow> Inr ''c'')"

fun place_oriented ::
  "Board \<Rightarrow> ((int \<times> int) \<rightharpoonup> string) \<Rightarrow> ((int \<times> int) \<times> BlockType) list \<Rightarrow> error + Board" where
  "place_oriented tb orient_map [] = Inr tb"
| "place_oriented tb orient_map (((r, c), bt) # rest) =
     (case place_block tb r c bt of
        Inl e \<Rightarrow> Inl e
      | Inr tb1 \<Rightarrow>
          (case block_character orient_map r c bt of
             Inl e \<Rightarrow> Inl e
           | Inr ch \<Rightarrow>
               (case grid_set tb1 r c ch of
                  Inl e \<Rightarrow> Inl e
                | Inr tb2 \<Rightarrow> place_oriented tb2 orient_map rest)))"

definition oriented_candidate ::
  "Board \<Rightarrow> (int \<times> int) list \<Rightarrow> BlockType list \<Rightarrow> string list \<Rightarrow> error + Board" where
  "oriented_candidate b pos_combo block_perm orientation_choices =
     place_oriented b
       (map_of (rev (zip (reflect_positions pos_combo block_perm) orientation_choices)))
       (zip pos_combo block_perm)"

definition optimized_candidates ::
  "Board \<Rightarrow> (int \<times> int) list \<Rightarrow> BlockType list \<Rightarrow> (error + Board) list" where
  "optimized_candidates b positions blocks_to_place =
     concat (map (\<lambda>pos_combo.
               concat (map (\<lambda>block_perm.
                         map (oriented_candidate b pos_combo block_perm)
                             (orientation_product
                                (length (reflect_positions pos_combo block_perm))))
                       (generate_unique_permutations blocks_to_place)))
             (combinations positions (length blocks_to_place)))"

fun first_solution_skip :: "(int \<times> int) set \<Rightarrow> (error + Board) list \<Rightarrow> error + Board option" where
  "first_solution_skip pts [] = Inr None"
| "first_solution_skip pts (Inl ValueError # rest) = first_solution_skip pts rest"
| "first_solution_skip pts (Inl e # rest) = Inl e"
| "first_solution_skip pts (Inr tb # rest) =
     (if pts \<subseteq> simulate_board tb then Inr (Some tb) else first_solution_skip pts rest)"

text \<open>
  The flag \<open>use_hot_slots\<close> is the source's parameter; \<^verbatim>\<open>debug\<close> only prints and
  \<^verbatim>\<open>hot_slots_ratio\<close> is read by no live statement. The second call of
  \<^verbatim>\<open>_hot_slots_by_empty_trace\<close> (for a debug message) repeats the one inside the sort,
  the state cache is switched off by \<^verbatim>\<open>use_state_cache = False\<close>, and
  \<^verbatim>\<open>best_hit_count\<close> and \<^verbatim>\<open>best_snapshot_ascii\<close> are diagnostics that no result depends on.
\<close>

definition solve_optimized :: "Board \<Rightarrow> bool \<Rightarrow> error + Board option" where
  "solve_optimized b use_hot_slots =
     (case get_placeable_positions b of
        Inl e \<Rightarrow> Inl e
      | Inr positions0 \<Rightarrow>
          (let blocks_to_place = get_blocks_to_place b
           in if blocks_to_place = [] then
                (if points b \<subseteq> simulate_board b then Inr (Some b) else Inr None)
              else
                (case (if use_hot_slots then sort_slots_target_first b positions0
                       else Inr positions0) of
                   Inl e \<Rightarrow> Inl e
                 | Inr positions \<Rightarrow>
                     if length blocks_to_place > length positions then Inr None
                     else first_solution_skip (points b)
                            (optimized_candidates b positions blocks_to_place))))"

section \<open>Example inputs\<close>

text \<open>
  The boards, states and puzzles the theorems below are evaluated on. \<open>open_cell_board\<close>
  is one open cell; \<open>reflect_placed_board\<close> is that board after \<^verbatim>\<open>place_block\<close> of a
  Reflect block. \<open>corner_board\<close> has Refract blocks on both edges of a corner and none in
  the corner's cell. \<open>mirror_board\<close> has one open cell at \<open>(1, 1)\<close>, one Reflect block to
  place and a laser entering at \<open>(4, 3)\<close> with direction \<open>(- 1, - 1)\<close>; \<open>slash_placed\<close> is the
  board \<open>solve\<close> builds from it and \<open>oriented_placed ch\<close> the board \<open>solve_optimized\<close>
  builds with orientation \<open>ch\<close>. \<open>strip_board\<close> is a row of three open cells.
  \<open>two_laser_board\<close> has two lasers with different start points. \<open>zero_spec\<close> and
  \<open>zero_board\<close> are what the puzzle of one open cell and the line \<^verbatim>\<open>L 1 1 0 0\<close> parses to
  and builds; \<open>fixed_mirror_spec\<close> and \<open>fixed_mirror_board\<close> are those of the puzzle whose
  grid is the single token \<open>A\<close>.
\<close>

definition open_cell_board :: Board where
  "open_cell_board = \<lparr>grid = [[''o'']], fixed_blocks = [], free_blocks = [],
     lasers = [Laser 2 1 1 (- 1)], points = {}\<rparr>"

definition reflect_placed_board :: Board where
  "reflect_placed_board =
     open_cell_board\<lparr>fixed_blocks := [((0, 0), Block REFLECT 0 0)]\<rparr>"

definition corner_board :: Board where
  "corner_board = \<lparr>grid = [[''o'', ''c''], [''c'', ''o'']], fixed_blocks = [],
     free_blocks = [], lasers = [Laser 1 1 1 1], points = {}\<rparr>"

definition capped_state :: sim_state where
  "capped_state = \<lparr>active_lasers = [Laser 2 1 1 (- 1)], visited_states = {},
     hit_points = {(2, 1)}, iteration = 5000\<rparr>"

definition mirror_board :: "(int \<times> int) set \<Rightarrow> Board" where
  "mirror_board pts = \<lparr>grid = [[''x'', ''x''], [''x'', ''o'']], fixed_blocks = [],
     free_blocks = [(REFLECT, 1), (OPAQUE, 0), (REFRACT, 0)],
     lasers = [Laser 4 3 (- 1) (- 1)], points = pts\<rparr>"

definition slash_placed :: "(int \<times> int) set \<Rightarrow> Board" where
  "slash_placed pts = (mirror_board pts)\<lparr>fixed_blocks := [((1, 1), Block REFLECT 1 1)]\<rparr>"

definition oriented_placed :: "string \<Rightarrow> (int \<times> int) set \<Rightarrow> Board" where
  "oriented_placed ch pts = (mirror_board pts)\<lparr>grid := [[''x'', ''x''], [''x'', ch]],
      fixed_blocks := [((1, 1), Block REFLECT 1 1)]\<rparr>"

definition strip_board :: Board where
  "strip_board = \<lparr>grid = [[''o'', ''o'', ''o'']], fixed_blocks = [],
     free_blocks = [(REFLECT, 1), (OPAQUE, 0), (REFRACT, 0)],
     lasers = [Laser 1 1 (- 1) (- 1)], points = {(5, 1)}\<rparr>"

definition two_laser_board :: Board where
  "two_laser_board = \<lparr>grid = [[''o'']], fixed_blocks = [], free_blocks = [],
     lasers = [Laser 2 1 1 (- 1), Laser 0 1 (- 1) 1], points = {}\<rparr>"



definition fixed_mirror_spec :: BFFSpec where
  "fixed_mirror_spec = \<lparr>grid_tokens = [[''A'']],
     spec_free_blocks = [(REFLECT, 0), (OPAQUE, 0), (REFRACT, 0)],
     spec_lasers = [], spec_points = []\<rparr>"

definition fixed_mirror_board :: Board where
  "fixed_mirror_board = \<lparr>grid = [[''x'']], fixed_blocks = [((0, 0), Block REFLECT 0 0)],
     free_blocks = [(REFLECT, 0), (OPAQUE, 0), (REFRACT, 0)], lasers = [], points = {}\<rparr>"

section \<open>Evaluation\<close>

text \<open>
  The definitions that the evaluation of a lookup, of a simulation and of a search on a
  concrete board unfolds.
\<close>

lemmas lookup_eval = nrows_def ncols_def in_bounds_def py_index_def grid_get_def
  fixed_ch_def block_ch_at_def lower_def lower_char_def truthy_def
  block_across_vertical_edge_def block_across_horizontal_edge_def
  opt_interaction_def collect_interactions_def interact_all_def interact_def
  reflect_slash_def reflect_backslash_def step_and_collide_def Let_def

lemmas sim_eval = simulate_board_def sim_init_def sim_loop.simps sim_iter_def
  records_start_def off_board_def max_iterations_def

lemmas solver_eval = is_placeable_def place_block_def all_cells_def get_placeable_positions_def
  get_blocks_to_place_def board_bounds_def hot_candidates_def hot_trace_loop.simps
  hot_slots_by_empty_trace_def sort_slots_by_laser_proximity_def dist_to_targets_def
  sort_slots_target_first_def permutations_def solve_candidates_def solve_def
  generate_unique_permutations_def py_norm_def grid_set_def reflect_positions_def
  block_character_def oriented_candidate_def optimized_candidates_def solve_optimized_def
  upto.simps

section \<open>Properties of the simulator's step\<close>

text \<open>
  C2 (block interaction rules). \<open>interact\<close> returns the reference table for every
  incoming direction and boundary kind: an Opaque block (\<open>b\<close>) absorbs, a Reflect block
  \<open>/\<close> (\<open>a\<close>) gives \<open>(- vy, - vx)\<close>, a Reflect block \<open>\\<close> (\<open>d\<close>) gives \<open>(vy, vx)\<close>, a
  Refract block (\<open>c\<close>) gives the unchanged beam and one flipped beam, \<open>(- vx, vy)\<close> at a
  vertical boundary, \<open>(vx, - vy)\<close> at a horizontal one and \<open>(- vx, - vy)\<close> at any other
  (a corner); any other character, and a step that meets no block, leave the beam
  unchanged.
\<close>

theorem interact_table:
  "interact ''b'' vx vy boundary = []
   \<and> interact ''a'' vx vy boundary = [(- vy, - vx)]
   \<and> interact ''d'' vx vy boundary = [(vy, vx)]
   \<and> interact ''c'' vx vy ''vertical'' = [(vx, vy), (- vx, vy)]
   \<and> interact ''c'' vx vy ''horizontal'' = [(vx, vy), (vx, - vy)]
   \<and> (boundary \<noteq> ''vertical'' \<and> boundary \<noteq> ''horizontal''
        \<longrightarrow> interact ''c'' vx vy boundary = [(vx, vy), (- vx, - vy)])
   \<and> (block_ch \<noteq> ''a'' \<and> block_ch \<noteq> ''b'' \<and> block_ch \<noteq> ''c'' \<and> block_ch \<noteq> ''d''
        \<longrightarrow> interact block_ch vx vy boundary = [(vx, vy)])
   \<and> (collect_interactions b x y vx vy = []
        \<longrightarrow> step_and_collide b x y vx vy = (x + vx, y + vy, [(vx, vy)]))"
  by (simp add: interact_def reflect_slash_def reflect_backslash_def step_and_collide_def)

lemma open_cell_board_no_interaction:
  "collect_interactions open_cell_board 2 1 1 (- 1) = []"
  by (simp add: open_cell_board_def collect_interactions_def Let_def)

theorem interact_table_witness:
  "''corner'' \<noteq> ''vertical'' \<and> ''corner'' \<noteq> ''horizontal''
   \<and> interact ''c'' 1 (- 1) ''corner'' = [(1, - 1), (- 1, 1)]
   \<and> ''o'' \<noteq> ''a'' \<and> ''o'' \<noteq> ''b'' \<and> ''o'' \<noteq> ''c'' \<and> ''o'' \<noteq> ''d''
   \<and> interact ''o'' 1 (- 1) ''corner'' = [(1, - 1)]
   \<and> collect_interactions open_cell_board 2 1 1 (- 1) = []
   \<and> step_and_collide open_cell_board 2 1 1 (- 1) = (3, 0, [(1, - 1)])"
  using interact_table [of 1 "- 1" "''corner''" "''o''" open_cell_board 2 1]
    open_cell_board_no_interaction
  by simp

subsection \<open>Block lookups return a block character\<close>

lemma lower_in_letters_nonempty:
  "lower g \<in> set [''a'', ''b'', ''c'', ''d''] \<Longrightarrow> lower g \<noteq> []"
  by auto

lemma fixed_ch_nonempty: "fixed_ch b r c = Some ch \<Longrightarrow> ch \<noteq> []"
  by (auto simp: fixed_ch_def split: option.splits BlockType.splits)

lemma block_ch_at_nonempty: "block_ch_at b r c = Some ch \<Longrightarrow> ch \<noteq> []"
  unfolding block_ch_at_def
  by (auto split: if_splits option.splits dest: fixed_ch_nonempty)

lemma truthy_block_ch_at: "truthy (block_ch_at b r c) \<longleftrightarrow> block_ch_at b r c \<noteq> None"
  by (cases "block_ch_at b r c") (auto simp: truthy_def dest: block_ch_at_nonempty)

lemma first_block_nonempty: "first_block b cs = Some ch \<Longrightarrow> ch \<noteq> []"
  by (induction b cs rule: first_block.induct)
     (auto simp: Let_def truthy_block_ch_at split: if_splits dest: block_ch_at_nonempty)

lemma vertical_edge_nonempty: "block_across_vertical_edge b mx y vy = Some ch \<Longrightarrow> ch \<noteq> []"
  unfolding block_across_vertical_edge_def Let_def
  by (auto simp del: first_block.simps split: if_splits dest: first_block_nonempty)

lemma horizontal_edge_nonempty: "block_across_horizontal_edge b x my vx = Some ch \<Longrightarrow> ch \<noteq> []"
  unfolding block_across_horizontal_edge_def Let_def
  by (auto simp del: first_block.simps split: if_splits dest: first_block_nonempty)

lemma opt_interaction_vertical:
  "opt_interaction bd (block_across_vertical_edge b mx y vy) =
     (case block_across_vertical_edge b mx y vy of None \<Rightarrow> [] | Some ch \<Rightarrow> [(bd, ch)])"
  by (auto simp: opt_interaction_def split: option.splits dest: vertical_edge_nonempty)

lemma opt_interaction_horizontal:
  "opt_interaction bd (block_across_horizontal_edge b x my vx) =
     (case block_across_horizontal_edge b x my vx of None \<Rightarrow> [] | Some ch \<Rightarrow> [(bd, ch)])"
  by (auto simp: opt_interaction_def split: option.splits dest: horizontal_edge_nonempty)

lemma opt_interaction_corner:
  "opt_interaction bd (block_ch_at b r c) =
     (case block_ch_at b r c of None \<Rightarrow> [] | Some ch \<Rightarrow> [(bd, ch)])"
  by (auto simp: opt_interaction_def split: option.splits dest: block_ch_at_nonempty)

lemma interact_all_single: "interact_all bd ch [(vx, vy)] = interact ch vx vy bd"
  by (simp add: interact_all_def)

lemma interact_all_Nil: "interact_all bd ch [] = []"
  by (simp add: interact_all_def)

text \<open>
  C6 (corner two-tier resolution). On a step whose midpoint \<open>(mx, my)\<close> is odd in both
  axes, \<open>step_and_collide\<close> first looks up the block at the corner's cell
  \<open>((my - 1) div 2, (mx - 1) div 2)\<close> and, when there is one, applies that block alone
  with boundary \<open>corner\<close>; only when there is none does it resolve the vertical edge and
  the horizontal edge independently and apply them in sequence, every beam the vertical
  interaction leaves being fed into the horizontal one.
\<close>

theorem corner_two_tier:
  assumes "(x + (x + vx)) div 2 mod 2 = 1" and "(y + (y + vy)) div 2 mod 2 = 1"
  shows "step_and_collide b x y vx vy =
     (x + vx, y + vy,
      (let mx = (x + (x + vx)) div 2; my = (y + (y + vy)) div 2
       in case block_ch_at b ((my - 1) div 2) ((mx - 1) div 2) of
            Some corner_block \<Rightarrow> interact corner_block vx vy ''corner''
          | None \<Rightarrow>
              (let after_vertical =
                     (case block_across_vertical_edge b mx y vy of
                        None \<Rightarrow> [(vx, vy)]
                      | Some blk_v \<Rightarrow> interact blk_v vx vy ''vertical'')
               in case block_across_horizontal_edge b x my vx of
                    None \<Rightarrow> after_vertical
                  | Some blk_h \<Rightarrow>
                      concat (map (\<lambda>(bvx, bvy). interact blk_h bvx bvy ''horizontal'')
                                  after_vertical))))"
  using assms
  unfolding step_and_collide_def collect_interactions_def Let_def
  by (auto simp: truthy_block_ch_at opt_interaction_vertical opt_interaction_horizontal
        opt_interaction_corner interact_all_single interact_all_Nil Let_def interact_all_def
        split: option.splits)

lemma corner_board_lookups:
  "block_ch_at corner_board 0 0 = None"
  "block_across_vertical_edge corner_board 1 1 1 = Some ''c''"
  "block_across_horizontal_edge corner_board 1 1 1 = Some ''c''"
  by (simp_all add: corner_board_def block_across_vertical_edge_def
        block_across_horizontal_edge_def block_ch_at_def in_bounds_def nrows_def ncols_def
        grid_get_def py_index_def fixed_ch_def lower_def lower_char_def truthy_def Let_def)

theorem corner_two_tier_witness:
  "(1 + (1 + 1)) div 2 mod 2 = (1::int) \<and>
   step_and_collide corner_board 1 1 1 1 = (2, 2, [(1, 1), (1, - 1), (- 1, 1), (- 1, - 1)])"
  using corner_two_tier [of 1 1 1 1 corner_board]
  by (simp add: corner_board_lookups interact_def)

section \<open>Properties of block placement and board construction\<close>

lemma is_placeable_True:
  "is_placeable b r c = Inr True \<Longrightarrow>
     in_bounds b r c \<and> map_of (fixed_blocks b) (r, c) = None \<and> grid_get b r c = Some ''o''"
  by (auto simp: is_placeable_def split: if_splits option.splits)

lemma lower_o: "lower ''o'' = ''o''"
  by (simp add: lower_def lower_char_def)

lemma place_block_Inr:
  "place_block b r c k = Inr b' \<Longrightarrow>
     is_placeable b r c = Inr True \<and>
     b' = b\<lparr>fixed_blocks := AList.update (r, c) (Block k r c) (fixed_blocks b)\<rparr>"
  by (auto simp: place_block_def split: sum.splits if_splits)

lemma place_block_grid: "place_block b r c k = Inr b' \<Longrightarrow> grid b' = grid b"
  by (auto dest: place_block_Inr)

lemma place_block_lookup:
  "place_block b r c k = Inr b' \<Longrightarrow>
     map_of (fixed_blocks b') = (map_of (fixed_blocks b))((r, c) \<mapsto> Block k r c)"
  by (auto dest!: place_block_Inr simp: update_conv')

lemma place_block_keeps:
  assumes "place_block b r c k = Inr b'" and "map_of (fixed_blocks b) p = Some blk"
  shows "map_of (fixed_blocks b') p = Some blk"
proof -
  have "map_of (fixed_blocks b) (r, c) = None"
    using assms(1) by (auto dest!: place_block_Inr is_placeable_True)
  then have "p \<noteq> (r, c)" using assms(2) by auto
  then show ?thesis using assms by (simp add: place_block_lookup)
qed

lemma place_blocks_grid: "place_blocks b ps = Inr tb \<Longrightarrow> grid tb = grid b"
  by (induction b ps rule: place_blocks.induct)
     (auto split: sum.splits dest: place_block_grid)

lemma place_blocks_keeps:
  "place_blocks b ps = Inr tb \<Longrightarrow> map_of (fixed_blocks b) p = Some blk
     \<Longrightarrow> map_of (fixed_blocks tb) p = Some blk"
  by (induction b ps rule: place_blocks.induct)
     (auto split: sum.splits dest: place_block_keeps)

lemma in_bounds_grid: "grid b' = grid b \<Longrightarrow> in_bounds b' r c = in_bounds b r c"
  by (simp add: in_bounds_def nrows_def ncols_def)

lemma grid_get_grid: "grid b' = grid b \<Longrightarrow> grid_get b' r c = grid_get b r c"
  by (simp add: grid_get_def)

lemma block_ch_at_fixed_reflect:
  assumes "in_bounds b r c"
    and "\<forall>g. grid_get b r c = Some g \<longrightarrow> lower g \<notin> set [''a'', ''b'', ''c'', ''d'']"
    and "map_of (fixed_blocks b) (r, c) = Some blk" and "kind blk = REFLECT"
  shows "block_ch_at b r c = Some ''a''"
  using assms by (auto simp: block_ch_at_def fixed_ch_def split: option.splits)

lemma place_blocks_Cons:
  "place_blocks b (((r, c), k) # rest) = Inr tb \<Longrightarrow>
     \<exists>b1. place_block b r c k = Inr b1 \<and> place_blocks b1 rest = Inr tb"
  by (cases "place_block b r c k") simp_all

lemma place_block_reflect_here:
  assumes "place_block b r c k = Inr b1"
  shows "in_bounds b r c \<and> grid_get b r c = Some ''o''
         \<and> map_of (fixed_blocks b1) (r, c) = Some (Block k r c)"
proof -
  have "is_placeable b r c = Inr True"
    using place_block_Inr [OF assms] by simp
  then have "in_bounds b r c \<and> grid_get b r c = Some ''o''"
    using is_placeable_True by blast
  then show ?thesis by (simp add: place_block_lookup [OF assms])
qed

lemma place_blocks_reflect:
  "place_blocks b ps = Inr tb \<Longrightarrow> ((r, c), k) \<in> set ps
     \<Longrightarrow> in_bounds tb r c \<and> grid_get tb r c = Some ''o''
         \<and> map_of (fixed_blocks tb) (r, c) = Some (Block k r c)"
proof (induction ps arbitrary: b)
  case Nil
  then show ?case by simp
next
  case (Cons p rest)
  obtain r0 c0 k0 where p: "p = ((r0, c0), k0)" by (cases p) auto
  from Cons.prems(1) obtain b1 where b1: "place_block b r0 c0 k0 = Inr b1"
    and rest: "place_blocks b1 rest = Inr tb"
    unfolding p using place_blocks_Cons by blast
  show ?case
  proof (cases "((r, c), k) \<in> set rest")
    case True
    then show ?thesis using Cons.IH [OF rest] by simp
  next
    case False
    then have eq: "r0 = r" "c0 = c" "k0 = k" using Cons.prems(2) p by auto
    have g: "grid tb = grid b"
      using place_blocks_grid [OF rest] place_block_grid [OF b1] by simp
    have here: "in_bounds b r c \<and> grid_get b r c = Some ''o''
         \<and> map_of (fixed_blocks b1) (r, c) = Some (Block k r c)"
      using place_block_reflect_here [OF b1] eq by simp
    then have "map_of (fixed_blocks tb) (r, c) = Some (Block k r c)"
      using place_blocks_keeps [OF rest] by blast
    then show ?thesis using here by (simp add: in_bounds_grid [OF g] grid_get_grid [OF g])
  qed
qed

lemma upper_cases:
  "lower ''O'' = ''o''" "lower ''X'' = ''x''"
  "from_letter ''A'' = Inr REFLECT" "from_letter ''B'' = Inr OPAQUE" "from_letter ''C'' = Inr REFRACT"
  by code_simp+

lemma lower_ox:
  "lower ''o'' \<notin> set [''a'', ''b'', ''c'', ''d'']" "lower ''x'' \<notin> set [''a'', ''b'', ''c'', ''d'']"
  by (simp_all add: lower_def lower_char_def)

lemma row_cells_open:
  assumes "row_cells r c (tok # toks) = Inr (row, fx)" and "upper tok \<in> set [''O'', ''X'']"
  shows "\<exists>row'. row_cells r (c + 1) toks = Inr (row', fx) \<and> row = lower (upper tok) # row'"
proof (cases "row_cells r (c + 1) toks")
  case (Inl e)
  then show ?thesis using assms by (simp add: Let_def)
next
  case (Inr p)
  then show ?thesis using assms by (cases p) (simp add: Let_def)
qed

lemma row_cells_block:
  assumes "row_cells r c (tok # toks) = Inr (row, fx)" and "upper tok \<notin> set [''O'', ''X'']"
  shows "\<exists>k row' fx'. row_cells r (c + 1) toks = Inr (row', fx') \<and> row = ''x'' # row'
           \<and> fx = ((r, c), Block k r c) # fx'"
proof (cases "upper tok \<in> set [''A'', ''B'', ''C'']")
  case False
  then show ?thesis using assms by (simp add: Let_def)
next
  case True
  show ?thesis
  proof (cases "from_letter (upper tok)")
    case (Inl e)
    then show ?thesis using assms True by (simp add: Let_def)
  next
    case k: (Inr k)
    show ?thesis
    proof (cases "row_cells r (c + 1) toks")
      case (Inl e)
      then show ?thesis using assms True k by (simp add: Let_def)
    next
      case (Inr p)
      then show ?thesis using assms True k by (cases p) (auto simp: Let_def)
    qed
  qed
qed

lemma row_cells_props:
  "row_cells r c toks = Inr (row, fx) \<Longrightarrow>
     length row = length toks
     \<and> (\<forall>tok\<in>set row. tok = ''o'' \<or> tok = ''x'')
     \<and> (\<forall>p\<in>set fx. fst (fst p) = r \<and> c \<le> snd (fst p) \<and> snd (fst p) < c + int (length toks))"
proof (induction toks arbitrary: c row fx)
  case Nil
  then show ?case by simp
next
  case (Cons tok toks)
  show ?case
  proof (cases "upper tok \<in> set [''O'', ''X'']")
    case True
    from row_cells_open [OF Cons.prems True] obtain row' where
      rc: "row_cells r (c + 1) toks = Inr (row', fx)" and row: "row = lower (upper tok) # row'"
      by blast
    have "upper tok = ''O'' \<or> upper tok = ''X''" using True by simp
    then have ox: "lower (upper tok) = ''o'' \<or> lower (upper tok) = ''x''"
      using upper_cases(1,2) by metis
    note ih = Cons.IH [OF rc]
    have "length row = length (tok # toks)" using ih row by simp
    moreover have "\<forall>t\<in>set row. t = ''o'' \<or> t = ''x''" using ih ox row by auto
    moreover have "\<forall>p\<in>set fx. fst (fst p) = r \<and> c \<le> snd (fst p)
        \<and> snd (fst p) < c + int (length (tok # toks))"
      using ih by fastforce
    ultimately show ?thesis by blast
  next
    case False
    from row_cells_block [OF Cons.prems False] obtain k row' fx' where
      rc: "row_cells r (c + 1) toks = Inr (row', fx')" and row: "row = ''x'' # row'"
      and fx: "fx = ((r, c), Block k r c) # fx'"
      by blast
    note ih = Cons.IH [OF rc]
    have "length row = length (tok # toks)" using ih row by simp
    moreover have "\<forall>t\<in>set row. t = ''o'' \<or> t = ''x''" using ih row by auto
    moreover have "\<forall>p\<in>set fx. fst (fst p) = r \<and> c \<le> snd (fst p)
        \<and> snd (fst p) < c + int (length (tok # toks))"
      using ih fx by fastforce
    ultimately show ?thesis by blast
  qed
qed

lemma grid_cells_props:
  "grid_cells r rows = Inr (g, fx) \<Longrightarrow>
     length g = length rows
     \<and> (\<forall>i<length rows. length (g ! i) = length (rows ! i))
     \<and> (\<forall>row\<in>set g. \<forall>tok\<in>set row. tok = ''o'' \<or> tok = ''x'')
     \<and> (\<forall>p\<in>set fx. r \<le> fst (fst p) \<and> fst (fst p) < r + int (length rows)
            \<and> 0 \<le> snd (fst p)
            \<and> snd (fst p) < int (length (rows ! nat (fst (fst p) - r))))"
proof (induction rows arbitrary: r g fx)
  case Nil
  then show ?case by simp
next
  case (Cons row rows)
  from Cons.prems obtain new_row fx1 g' fx2 where
    rc: "row_cells r 0 row = Inr (new_row, fx1)"
    and gc: "grid_cells (r + 1) rows = Inr (g', fx2)"
    and g: "g = new_row # g'" and fx: "fx = fx1 @ fx2"
    by (auto split: sum.splits)
  note r1 = row_cells_props [OF rc]
  note r2 = Cons.IH [OF gc]
  have len: "length g = length (row # rows)" using r2 g by simp
  have lens: "\<forall>i<length (row # rows). length (g ! i) = length ((row # rows) ! i)"
  proof (intro allI impI)
    fix i assume "i < length (row # rows)"
    then show "length (g ! i) = length ((row # rows) ! i)"
      using r1 r2 g by (cases i) auto
  qed
  have toks: "\<forall>row\<in>set g. \<forall>tok\<in>set row. tok = ''o'' \<or> tok = ''x''"
    using r1 r2 g by auto
  have pos: "\<forall>p\<in>set fx. r \<le> fst (fst p) \<and> fst (fst p) < r + int (length (row # rows))
            \<and> 0 \<le> snd (fst p)
            \<and> snd (fst p) < int (length ((row # rows) ! nat (fst (fst p) - r)))"
  proof
    fix p assume "p \<in> set fx"
    then consider "p \<in> set fx1" | "p \<in> set fx2" using fx by auto
    then show "r \<le> fst (fst p) \<and> fst (fst p) < r + int (length (row # rows))
            \<and> 0 \<le> snd (fst p)
            \<and> snd (fst p) < int (length ((row # rows) ! nat (fst (fst p) - r)))"
    proof cases
      case 1
      then show ?thesis using r1 by auto
    next
      case 2
      then have b: "r + 1 \<le> fst (fst p)" "fst (fst p) < r + 1 + int (length rows)"
        "0 \<le> snd (fst p)"
        "snd (fst p) < int (length (rows ! nat (fst (fst p) - (r + 1))))"
        using r2 by auto
      have "nat (fst (fst p) - r) = Suc (nat (fst (fst p) - (r + 1)))"
        using b(1) by simp
      then show ?thesis using b by simp
    qed
  qed
  show ?case using len lens toks pos by blast
qed

lemma py_index_in_set: "py_index xs i = Some x \<Longrightarrow> x \<in> set xs"
  by (auto simp: py_index_def Let_def split: if_splits)

lemma grid_get_in_grid: "grid_get b r c = Some g \<Longrightarrow> \<exists>row\<in>set (grid b). g \<in> set row"
  by (auto simp: grid_get_def split: option.splits dest: py_index_in_set)

lemma parse_bff_lines_rectangular:
  "parse_bff_lines lines = Inr spec \<Longrightarrow>
     grid_tokens spec \<noteq> []
     \<and> (\<forall>row\<in>set (grid_tokens spec). length row = length (hd (grid_tokens spec)))"
  by (auto simp: parse_bff_lines_def list_all_iff split: sum.splits list.splits if_splits)

lemma from_bffspec_fixed_reflect:
  assumes spec: "grid_tokens spec \<noteq> []"
      "\<forall>row\<in>set (grid_tokens spec). length row = length (hd (grid_tokens spec))"
    and b: "from_bffspec spec = Inr b"
    and blk: "map_of (fixed_blocks b) (r, c) = Some blk" "kind blk = REFLECT"
  shows "block_ch_at b r c = Some ''a''"
proof -
  from b obtain g fx where gc: "grid_cells 0 (grid_tokens spec) = Inr (g, fx)"
    and g: "grid b = g" and fx: "fixed_blocks b = fx"
    by (auto simp: from_bffspec_def split: sum.splits prod.splits)
  note props = grid_cells_props [OF gc]
  have mem: "((r, c), blk) \<in> set fx" using blk(1) fx by (auto dest: map_of_SomeD)
  have pos: "\<forall>p\<in>set fx. 0 \<le> fst (fst p) \<and> fst (fst p) < 0 + int (length (grid_tokens spec))
            \<and> 0 \<le> snd (fst p)
            \<and> snd (fst p) < int (length (grid_tokens spec ! nat (fst (fst p) - 0)))"
    using props by blast
  have rng: "0 \<le> r" "r < int (length (grid_tokens spec))" "0 \<le> c"
    "c < int (length (grid_tokens spec ! nat r))"
    using bspec [OF pos mem] by simp_all
  have "grid_tokens spec ! nat r \<in> set (grid_tokens spec)" using rng by simp
  then have c: "c < int (length (hd (grid_tokens spec)))" using spec(2) rng(4) by simp
  have len: "length g = length (grid_tokens spec)" using props by blast
  have g0: "g \<noteq> []" using len spec(1) by auto
  have "\<forall>i<length (grid_tokens spec). length (g ! i) = length (grid_tokens spec ! i)"
    using props by blast
  then have "length (g ! 0) = length (grid_tokens spec ! 0)" using spec(1) by simp
  then have g1: "length (hd g) = length (hd (grid_tokens spec))"
    using g0 spec(1) by (simp add: hd_conv_nth)
  have nc: "ncols b = int (length (hd g))" using g g0 by (cases g) (simp_all add: ncols_def)
  have inb: "in_bounds b r c"
    using rng c g len g1 nc by (simp add: in_bounds_def nrows_def)
  have toks: "\<forall>row\<in>set g. \<forall>tok\<in>set row. tok = ''o'' \<or> tok = ''x''"
    using props by blast
  have "\<forall>gch. grid_get b r c = Some gch \<longrightarrow> lower gch \<notin> set [''a'', ''b'', ''c'', ''d'']"
  proof (intro allI impI)
    fix gch assume "grid_get b r c = Some gch"
    then obtain row where "row \<in> set g" "gch \<in> set row"
      using grid_get_in_grid g by blast
    then have "gch = ''o'' \<or> gch = ''x''" using toks by blast
    then show "lower gch \<notin> set [''a'', ''b'', ''c'', ''d'']" using lower_ox by auto
  qed
  then show ?thesis using inb blk by (intro block_ch_at_fixed_reflect) auto
qed

text \<open>
  C10 (a Reflect block without an orientation character is a \<open>/\<close> mirror). A Reflect
  block that is in bounds and present only in \<open>fixed_blocks\<close>, the grid holding no
  orientation character at its cell, is resolved by \<open>block_ch_at\<close> to \<open>a\<close>. So is every
  Reflect block that \<open>solve\<close> places with \<^verbatim>\<open>place_block\<close> (the loop \<open>place_blocks\<close>), on the
  board with all blocks placed, and so is every fixed Reflect block of a board built from
  a parsed puzzle. The character \<open>a\<close> reflects \<open>(vx, vy)\<close> to \<open>(- vy, - vx)\<close> at every
  boundary, so the \<open>\\<close> orientation is never applied to such a block.
\<close>

theorem fixed_reflect_is_slash:
  "(in_bounds b r c
      \<and> (\<forall>g. grid_get b r c = Some g \<longrightarrow> lower g \<notin> set [''a'', ''b'', ''c'', ''d''])
      \<and> map_of (fixed_blocks b) (r, c) = Some blk \<and> kind blk = REFLECT
    \<longrightarrow> block_ch_at b r c = Some ''a'')
   \<and> (place_blocks b0 ps = Inr tb \<and> ((r, c), REFLECT) \<in> set ps
    \<longrightarrow> block_ch_at tb r c = Some ''a'')
   \<and> (parse_bff_lines lines = Inr spec \<and> from_bffspec spec = Inr b1
        \<and> map_of (fixed_blocks b1) (r, c) = Some blk \<and> kind blk = REFLECT
    \<longrightarrow> block_ch_at b1 r c = Some ''a'')
   \<and> interact ''a'' vx vy boundary = [(- vy, - vx)]"
proof (intro conjI impI)
  assume "in_bounds b r c
      \<and> (\<forall>g. grid_get b r c = Some g \<longrightarrow> lower g \<notin> set [''a'', ''b'', ''c'', ''d''])
      \<and> map_of (fixed_blocks b) (r, c) = Some blk \<and> kind blk = REFLECT"
  then show "block_ch_at b r c = Some ''a''"
    by (intro block_ch_at_fixed_reflect) auto
next
  assume "place_blocks b0 ps = Inr tb \<and> ((r, c), REFLECT) \<in> set ps"
  then have "in_bounds tb r c \<and> grid_get tb r c = Some ''o''
         \<and> map_of (fixed_blocks tb) (r, c) = Some (Block REFLECT r c)"
    using place_blocks_reflect by blast
  then show "block_ch_at tb r c = Some ''a''"
    by (intro block_ch_at_fixed_reflect [where blk = "Block REFLECT r c"]) (auto simp: lower_o)
next
  assume "parse_bff_lines lines = Inr spec \<and> from_bffspec spec = Inr b1
        \<and> map_of (fixed_blocks b1) (r, c) = Some blk \<and> kind blk = REFLECT"
  then have p: "parse_bff_lines lines = Inr spec" and f: "from_bffspec spec = Inr b1"
    and m: "map_of (fixed_blocks b1) (r, c) = Some blk" and k: "kind blk = REFLECT"
    by simp_all
  note rect = parse_bff_lines_rectangular [OF p]
  show "block_ch_at b1 r c = Some ''a''"
    by (rule from_bffspec_fixed_reflect [OF conjunct1 [OF rect] conjunct2 [OF rect] f m k])
next
  show "interact ''a'' vx vy boundary = [(- vy, - vx)]"
    by (simp add: interact_def reflect_slash_def)
qed

lemma place_blocks_open_cell_board:
  "place_blocks open_cell_board [((0, 0), REFLECT)] = Inr reflect_placed_board"
  by (simp add: reflect_placed_board_def open_cell_board_def place_block_def is_placeable_def
        in_bounds_def nrows_def ncols_def grid_get_def py_index_def)

lemma reflect_placed_board_cell:
  "in_bounds reflect_placed_board 0 0"
  "grid_get reflect_placed_board 0 0 = Some ''o''"
  "map_of (fixed_blocks reflect_placed_board) (0, 0) = Some (Block REFLECT 0 0)"
  by (simp_all add: reflect_placed_board_def open_cell_board_def
        in_bounds_def nrows_def ncols_def grid_get_def py_index_def)

lemma parse_fixed_mirror:
  "parse_bff_lines [''GRID START'', ''A'', ''GRID STOP''] = Inr fixed_mirror_spec"
  by code_simp

lemma build_fixed_mirror: "from_bffspec fixed_mirror_spec = Inr fixed_mirror_board"
  by code_simp

lemma fixed_mirror_block:
  "map_of (fixed_blocks fixed_mirror_board) (0, 0) = Some (Block REFLECT 0 0)"
  by (simp add: fixed_mirror_board_def)

theorem fixed_reflect_is_slash_witness:
  "in_bounds reflect_placed_board 0 0
   \<and> grid_get reflect_placed_board 0 0 = Some ''o''
   \<and> lower ''o'' \<notin> set [''a'', ''b'', ''c'', ''d'']
   \<and> map_of (fixed_blocks reflect_placed_board) (0, 0) = Some (Block REFLECT 0 0)
   \<and> kind (Block REFLECT 0 0) = REFLECT
   \<and> place_blocks open_cell_board [((0, 0), REFLECT)] = Inr reflect_placed_board
   \<and> ((0, 0), REFLECT) \<in> set [((0, 0), REFLECT)]
   \<and> block_ch_at reflect_placed_board 0 0 = Some ''a''
   \<and> parse_bff_lines [''GRID START'', ''A'', ''GRID STOP''] = Inr fixed_mirror_spec
   \<and> from_bffspec fixed_mirror_spec = Inr fixed_mirror_board
   \<and> map_of (fixed_blocks fixed_mirror_board) (0, 0) = Some (Block REFLECT 0 0)
   \<and> block_ch_at fixed_mirror_board 0 0 = Some ''a''
   \<and> interact ''a'' 1 0 ''vertical'' = [(0, - 1)]"
proof -
  have "block_ch_at reflect_placed_board 0 0 = Some ''a''"
    using fixed_reflect_is_slash [of reflect_placed_board 0 0 "Block REFLECT 0 0"
        open_cell_board "[((0, 0), REFLECT)]" reflect_placed_board]
    by (simp add: place_blocks_open_cell_board reflect_placed_board_cell lower_o
          del: place_blocks.simps)
  moreover have "block_ch_at fixed_mirror_board 0 0 = Some ''a''"
    using fixed_reflect_is_slash [of fixed_mirror_board 0 0 "Block REFLECT 0 0" _ _ _
        "[''GRID START'', ''A'', ''GRID STOP'']" fixed_mirror_spec fixed_mirror_board]
    by (simp add: parse_fixed_mirror build_fixed_mirror fixed_mirror_block)
  moreover have "interact ''a'' 1 0 ''vertical'' = [(0, - 1)]"
    using fixed_reflect_is_slash [of _ _ _ _ _ _ _ _ _ _ 1 0 "''vertical''"] by simp
  ultimately show ?thesis
    by (simp add: place_blocks_open_cell_board reflect_placed_board_cell lower_o
          parse_fixed_mirror build_fixed_mirror fixed_mirror_block
          del: place_blocks.simps)
qed

section \<open>Properties of the simulation loop\<close>

lemma iteration_sim_iter:
  "active_lasers s \<noteq> [] \<Longrightarrow> iteration (sim_iter b s) = Suc (iteration s)"
  by (cases "active_lasers s")
     (simp_all add: sim_iter_def Let_def split: prod.splits)

lemma sim_loop_iterates:
  "\<exists>k. sim_loop b s = (sim_iter b ^^ k) s
        \<and> iteration (sim_loop b s) = iteration s + k
        \<and> (iteration s \<le> max_iterations \<longrightarrow> iteration s + k \<le> max_iterations)
        \<and> (\<forall>j<k. active_lasers ((sim_iter b ^^ j) s) \<noteq> [])"
proof (induction b s rule: sim_loop.induct)
  case (1 b s)
  show ?case
  proof (cases "active_lasers s \<noteq> [] \<and> iteration s < max_iterations")
    case False
    then have "sim_loop b s = s" by (subst sim_loop.simps) auto
    then show ?thesis by (intro exI [of _ 0]) simp
  next
    case True
    then have unf: "sim_loop b s = sim_loop b (sim_iter b s)"
      by (subst sim_loop.simps) simp
    have it: "iteration (sim_iter b s) = Suc (iteration s)"
      using True by (simp add: iteration_sim_iter)
    from "1.IH" [OF True] obtain k where
      k: "sim_loop b (sim_iter b s) = (sim_iter b ^^ k) (sim_iter b s)"
         "iteration (sim_loop b (sim_iter b s)) = iteration (sim_iter b s) + k"
         "iteration (sim_iter b s) \<le> max_iterations \<longrightarrow> iteration (sim_iter b s) + k \<le> max_iterations"
         "\<forall>j<k. active_lasers ((sim_iter b ^^ j) (sim_iter b s)) \<noteq> []"
      by blast
    have "\<forall>j<Suc k. active_lasers ((sim_iter b ^^ j) s) \<noteq> []"
    proof (intro allI impI)
      fix j assume "j < Suc k"
      then show "active_lasers ((sim_iter b ^^ j) s) \<noteq> []"
        using True k(4) by (cases j) (simp_all add: funpow_swap1)
    qed
    then show ?thesis
      using k True it unf by (intro exI [of _ "Suc k"]) (simp add: funpow_swap1)
  qed
qed

lemma sim_loop_at_cap: "max_iterations \<le> iteration s \<Longrightarrow> sim_loop b s = s"
  by (subst sim_loop.simps) simp

lemma sim_loop_stops:
  "active_lasers (sim_loop b s) = [] \<or> max_iterations \<le> iteration (sim_loop b s)"
proof (induction b s rule: sim_loop.induct)
  case (1 b s)
  show ?case
  proof (cases "active_lasers s \<noteq> [] \<and> iteration s < max_iterations")
    case True
    then have "sim_loop b s = sim_loop b (sim_iter b s)"
      by (subst sim_loop.simps) simp
    then show ?thesis using "1.IH" [OF True] by simp
  next
    case False
    then have "sim_loop b s = s" by (subst sim_loop.simps) auto
    then show ?thesis using False by auto
  qed
qed

text \<open>
  C8 (bounded termination). \<open>simulate_board\<close> is a total function: the loop is defined
  with a proof of termination. Its result is the set of hit points after \<open>k\<close> iterations
  of the loop body, for some \<open>k\<close> of at most 5000, each of them entered with a beam in the
  deque; the loop stops because the deque is empty or because it has run 5000 times. A
  state whose counter has reached the cap is returned as it is, beams still queued or
  not: the points collected so far are the result, and nothing is raised.
\<close>

theorem simulate_board_bounded:
  "max_iterations = 5000
   \<and> (\<exists>k. k \<le> 5000
        \<and> simulate_board b = hit_points ((sim_iter b ^^ k) (sim_init b))
        \<and> (\<forall>j<k. active_lasers ((sim_iter b ^^ j) (sim_init b)) \<noteq> [])
        \<and> (active_lasers ((sim_iter b ^^ k) (sim_init b)) = [] \<or> k = 5000))
   \<and> (iteration s = 5000 \<longrightarrow> sim_loop b s = s)"
proof (intro conjI)
  show "max_iterations = 5000" by (simp add: max_iterations_def)
  obtain k where k: "sim_loop b (sim_init b) = (sim_iter b ^^ k) (sim_init b)"
      "iteration (sim_loop b (sim_init b)) = iteration (sim_init b) + k"
      "iteration (sim_init b) \<le> max_iterations \<longrightarrow> iteration (sim_init b) + k \<le> max_iterations"
      "\<forall>j<k. active_lasers ((sim_iter b ^^ j) (sim_init b)) \<noteq> []"
    using sim_loop_iterates [of b "sim_init b"] by blast
  have stop: "active_lasers (sim_loop b (sim_init b)) = []
      \<or> max_iterations \<le> iteration (sim_loop b (sim_init b))"
    by (rule sim_loop_stops)
  show "\<exists>k. k \<le> 5000
        \<and> simulate_board b = hit_points ((sim_iter b ^^ k) (sim_init b))
        \<and> (\<forall>j<k. active_lasers ((sim_iter b ^^ j) (sim_init b)) \<noteq> [])
        \<and> (active_lasers ((sim_iter b ^^ k) (sim_init b)) = [] \<or> k = 5000)"
    using k stop
    by (intro exI [of _ k]) (auto simp: simulate_board_def sim_init_def max_iterations_def)
  show "iteration s = 5000 \<longrightarrow> sim_loop b s = s"
    by (simp add: sim_loop_at_cap max_iterations_def)
qed

theorem simulate_board_bounded_witness:
  "iteration capped_state = 5000 \<and> active_lasers capped_state \<noteq> []
   \<and> sim_loop open_cell_board capped_state = capped_state
   \<and> hit_points (sim_loop open_cell_board capped_state) = {(2, 1)}
   \<and> (\<exists>k. k \<le> 5000
         \<and> simulate_board open_cell_board
             = hit_points ((sim_iter open_cell_board ^^ k) (sim_init open_cell_board)))"
proof -
  have c: "iteration capped_state = 5000" "active_lasers capped_state \<noteq> []"
    "hit_points capped_state = {(2, 1)}"
    by (simp_all add: capped_state_def)
  from simulate_board_bounded [of open_cell_board capped_state]
  have "sim_loop open_cell_board capped_state = capped_state"
    and "\<exists>k. k \<le> 5000
         \<and> simulate_board open_cell_board
             = hit_points ((sim_iter open_cell_board ^^ k) (sim_init open_cell_board))"
    using c(1) by blast+
  then show ?thesis using c by simp
qed

lemma state_key_Laser: "state_key (Laser px py vx vy) = (px, py, vx, vy)"
  by (simp add: state_key_def)

lemma enqueue_dirs_appends:
  "enqueue_dirs b nx ny ds vis q = (vis', q') \<Longrightarrow>
     \<exists>new. q' = q @ new \<and> distinct (map state_key new)
          \<and> set (map state_key new) \<inter> vis = {}
          \<and> vis' = vis \<union> set (map state_key new)"
proof (induction ds arbitrary: vis q)
  case Nil
  then show ?case by (intro exI [of _ "[]"]) simp
next
  case (Cons d ds)
  obtain vx vy where d: "d = (vx, vy)" by (cases d)
  show ?case
  proof (cases "off_board b (nx + vx) (ny + vy) \<or> (nx, ny, vx, vy) \<in> vis")
    case True
    then have "enqueue_dirs b nx ny ds vis q = (vis', q')"
      using Cons.prems d by (auto split: if_splits)
    then show ?thesis by (rule Cons.IH)
  next
    case False
    then have "enqueue_dirs b nx ny ds (insert (nx, ny, vx, vy) vis)
                 (q @ [Laser nx ny vx vy]) = (vis', q')"
      using Cons.prems d by auto
    from Cons.IH [OF this] obtain new where
      new: "q' = (q @ [Laser nx ny vx vy]) @ new" "distinct (map state_key new)"
           "set (map state_key new) \<inter> insert (nx, ny, vx, vy) vis = {}"
           "vis' = insert (nx, ny, vx, vy) vis \<union> set (map state_key new)"
      by blast
    show ?thesis
      using new False
      by (intro exI [of _ "Laser nx ny vx vy # new"]) (auto simp: state_key_Laser)
  qed
qed

lemma sim_iter_appends:
  assumes "active_lasers s \<noteq> []"
  shows "active_lasers (sim_iter b s) = tl (active_lasers s) @ appended b s
         \<and> distinct (map state_key (appended b s))
         \<and> set (map state_key (appended b s)) \<inter> visited_states s = {}
         \<and> visited_states (sim_iter b s) = visited_states s \<union> set (map state_key (appended b s))"
proof -
  obtain laser rest where q: "active_lasers s = laser # rest"
    using assms by (cases "active_lasers s") auto
  have "\<exists>new. active_lasers (sim_iter b s) = rest @ new
          \<and> distinct (map state_key new)
          \<and> set (map state_key new) \<inter> visited_states s = {}
          \<and> visited_states (sim_iter b s) = visited_states s \<union> set (map state_key new)"
  proof -
    obtain new_x new_y out_dirs where st:
      "step_and_collide b (laser_x laser) (laser_y laser) (laser_vx laser) (laser_vy laser)
         = (new_x, new_y, out_dirs)"
      by (cases "step_and_collide b (laser_x laser) (laser_y laser) (laser_vx laser) (laser_vy laser)")
    show ?thesis
    proof (cases "off_board b new_x new_y")
      case True
      then show ?thesis
        using q st by (intro exI [of _ "[]"]) (simp add: sim_iter_def Let_def)
    next
      case False
      obtain vis' q' where e: "enqueue_dirs b new_x new_y out_dirs (visited_states s) rest = (vis', q')"
        by (cases "enqueue_dirs b new_x new_y out_dirs (visited_states s) rest")
      from enqueue_dirs_appends [OF e] obtain new where
        "q' = rest @ new" "distinct (map state_key new)"
        "set (map state_key new) \<inter> visited_states s = {}"
        "vis' = visited_states s \<union> set (map state_key new)"
        by blast
      then show ?thesis
        using q st False e by (intro exI [of _ new]) (simp add: sim_iter_def Let_def)
    qed
  qed
  then obtain new where new: "active_lasers (sim_iter b s) = rest @ new"
      "distinct (map state_key new)"
      "set (map state_key new) \<inter> visited_states s = {}"
      "visited_states (sim_iter b s) = visited_states s \<union> set (map state_key new)"
    by blast
  have "appended b s = new"
    using q new(1) by (simp add: appended_def)
  then show ?thesis using new q by simp
qed

lemma sim_loop_log_fst: "fst (sim_loop_log b s log) = sim_loop b s"
proof (induction b s log rule: sim_loop_log.induct)
  case (1 b s log)
  show ?case
  proof (cases "active_lasers s \<noteq> [] \<and> iteration s < max_iterations")
    case True
    then have "sim_loop_log b s log = sim_loop_log b (sim_iter b s) (log @ appended b s)"
      by (subst sim_loop_log.simps) simp
    moreover have "sim_loop b s = sim_loop b (sim_iter b s)"
      using True by (subst sim_loop.simps) simp
    ultimately show ?thesis using "1.IH" [OF True] by simp
  next
    case False
    then have "sim_loop_log b s log = (s, log)" by (subst sim_loop_log.simps) auto
    moreover have "sim_loop b s = s" using False by (subst sim_loop.simps) auto
    ultimately show ?thesis by simp
  qed
qed

lemma sim_loop_log_distinct:
  "distinct (map state_key log) \<Longrightarrow> set (map state_key log) \<subseteq> visited_states s
     \<Longrightarrow> distinct (map state_key (snd (sim_loop_log b s log)))"
proof (induction b s log rule: sim_loop_log.induct)
  case (1 b s log)
  show ?case
  proof (cases "active_lasers s \<noteq> [] \<and> iteration s < max_iterations")
    case True
    then have unf: "sim_loop_log b s log = sim_loop_log b (sim_iter b s) (log @ appended b s)"
      by (subst sim_loop_log.simps) simp
    have ne: "active_lasers s \<noteq> []" using True by simp
    note ap = sim_iter_appends [OF ne, of b]
    have d: "distinct (map state_key (log @ appended b s))"
      using "1.prems" ap by auto
    have v: "set (map state_key (log @ appended b s)) \<subseteq> visited_states (sim_iter b s)"
      using "1.prems" ap by auto
    show ?thesis using "1.IH" [OF True d v] unf by simp
  next
    case False
    then have "sim_loop_log b s log = (s, log)" by (subst sim_loop_log.simps) auto
    then show ?thesis using "1.prems" by simp
  qed
qed

text \<open>
  C7 (cycle protection). Throughout a run of \<open>simulate_board\<close> no beam state beyond the
  seed lasers is enqueued twice: the log of everything the loop appends to the deque has
  pairwise different state keys. In every iteration the appended beams have keys that
  were not in the visited-states set, and the set grows by exactly those keys. (The seed
  lasers are not recorded in the set, so a beam with the key of a seed can be enqueued
  once.)
\<close>

theorem no_duplicate_enqueue:
  "fst (sim_loop_log b (sim_init b) []) = sim_loop b (sim_init b)
   \<and> distinct (map state_key (snd (sim_loop_log b (sim_init b) [])))
   \<and> (active_lasers s \<noteq> [] \<longrightarrow>
        active_lasers (sim_iter b s) = tl (active_lasers s) @ appended b s
        \<and> set (map state_key (appended b s)) \<inter> visited_states s = {}
        \<and> visited_states (sim_iter b s)
            = visited_states s \<union> set (map state_key (appended b s)))"
  using sim_loop_log_fst [of b "sim_init b" "[]"]
    sim_loop_log_distinct [of "[]" "sim_init b" b] sim_iter_appends [of s b]
  by simp

theorem no_duplicate_enqueue_witness:
  "active_lasers (sim_init open_cell_board) \<noteq> []
   \<and> active_lasers (sim_iter open_cell_board (sim_init open_cell_board))
       = tl (active_lasers (sim_init open_cell_board))
         @ appended open_cell_board (sim_init open_cell_board)
   \<and> set (map state_key (appended open_cell_board (sim_init open_cell_board)))
        \<inter> visited_states (sim_init open_cell_board) = {}
   \<and> distinct (map state_key (snd (sim_loop_log open_cell_board (sim_init open_cell_board) [])))"
proof -
  have ne: "active_lasers (sim_init open_cell_board) \<noteq> []"
    by (simp add: sim_init_def open_cell_board_def)
  show ?thesis
    using no_duplicate_enqueue [of open_cell_board "sim_init open_cell_board"] ne
    by blast
qed

section \<open>Start positions of the seed lasers\<close>

text \<open>
  Every end point that \<open>step_endpoints\<close> collects is a hit point of the simulation.
\<close>

lemma hit_points_sim_iter:
  "active_lasers s = laser # rest \<Longrightarrow>
     hit_points (sim_iter b s)
       = insert (step_endpoint b laser)
           (if records_start b (Suc (iteration s)) laser
            then insert (laser_x laser, laser_y laser) (hit_points s) else hit_points s)"
  by (cases "step_and_collide b (laser_x laser) (laser_y laser) (laser_vx laser) (laser_vy laser)")
     (simp add: sim_iter_def step_endpoint_def Let_def split: prod.splits)

lemma hit_points_sim_iter_mono: "hit_points s \<subseteq> hit_points (sim_iter b s)"
proof (cases "active_lasers s")
  case Nil
  then show ?thesis by (simp add: sim_iter_def)
next
  case (Cons laser rest)
  then show ?thesis by (auto simp: hit_points_sim_iter)
qed

lemma hit_points_sim_loop_mono: "hit_points s \<subseteq> hit_points (sim_loop b s)"
proof (induction b s rule: sim_loop.induct)
  case (1 b s)
  show ?case
  proof (cases "active_lasers s \<noteq> [] \<and> iteration s < max_iterations")
    case True
    then have "sim_loop b s = sim_loop b (sim_iter b s)"
      by (subst sim_loop.simps) simp
    then show ?thesis
      using "1.IH" [OF True] hit_points_sim_iter_mono [of s b] by auto
  next
    case False
    then have "sim_loop b s = s" by (subst sim_loop.simps) auto
    then show ?thesis by simp
  qed
qed

lemma step_endpoints_hit:
  "acc \<subseteq> hit_points s \<Longrightarrow> step_endpoints b s acc \<subseteq> hit_points (sim_loop b s)"
proof (induction b s acc rule: step_endpoints.induct)
  case (1 b s acc)
  show ?case
  proof (cases "active_lasers s \<noteq> [] \<and> iteration s < max_iterations")
    case True
    then obtain laser rest where q: "active_lasers s = laser # rest"
      by (cases "active_lasers s") auto
    have unf: "step_endpoints b s acc
        = step_endpoints b (sim_iter b s) (insert (step_endpoint b laser) acc)"
      using True q by (subst step_endpoints.simps) simp
    have loop: "sim_loop b s = sim_loop b (sim_iter b s)"
      using True by (subst sim_loop.simps) simp
    have "insert (step_endpoint b laser) acc \<subseteq> hit_points (sim_iter b s)"
      using "1.prems" hit_points_sim_iter_mono [of s b] by (auto simp: hit_points_sim_iter [OF q])
    then show ?thesis using "1.IH" [OF True] q unf loop by simp
  next
    case False
    then have "step_endpoints b s acc = acc" by (subst step_endpoints.simps) auto
    then show ?thesis using "1.prems" hit_points_sim_loop_mono [of s b] by auto
  qed
qed

lemma step_endpoints_simulated: "step_endpoints b (sim_init b) {} \<subseteq> simulate_board b"
  by (simp add: simulate_board_def step_endpoints_hit)

lemma two_laser_first_iteration:
  "sim_iter two_laser_board (sim_init two_laser_board)
     = \<lparr>active_lasers = [Laser 0 1 (- 1) 1, Laser 3 0 1 (- 1)],
         visited_states = {(3, 0, 1, - 1)}, hit_points = {(3, 0)}, iteration = 1\<rparr>"
  by (simp add: two_laser_board_def sim_init_def sim_iter_def records_start_def off_board_def
        lookup_eval)

lemma two_laser_second_iteration:
  "hit_points (sim_iter two_laser_board (sim_iter two_laser_board (sim_init two_laser_board)))
     = {(- 1, 2), (0, 1), (3, 0)}"
  unfolding two_laser_first_iteration
  by (simp add: two_laser_board_def sim_iter_def records_start_def off_board_def lookup_eval)

lemma two_laser_hits:
  "(0, 1) \<in> simulate_board two_laser_board \<and> (2, 1) \<notin> simulate_board two_laser_board"
  by (simp add: two_laser_board_def sim_eval lookup_eval)

lemma two_laser_endpoints:
  "(0, 1) \<notin> step_endpoints two_laser_board (sim_init two_laser_board) {}"
  by (simp add: two_laser_board_def step_endpoints.simps step_endpoint_def sim_init_def
        sim_iter_def records_start_def off_board_def max_iterations_def lookup_eval)

text \<open>
  C4 (seed start positions are not hits), on a board with two lasers that start at
  different points. The start \<open>(2, 1)\<close> of the first laser is not recorded. The start
  \<open>(0, 1)\<close> of the second laser is recorded in the iteration that dequeues it: after the
  two seed iterations the hit points are the two step end points and \<open>(0, 1)\<close>, and
  \<open>(0, 1)\<close> is in the result although no step of the run ends there (every step end
  point is in the result). The test in \<open>records_start\<close> compares every seed with the
  position of \<^verbatim>\<open>board.lasers[0]\<close> only.
\<close>

theorem second_seed_start_recorded:
  "lasers two_laser_board = [Laser 2 1 1 (- 1), Laser 0 1 (- 1) 1]
   \<and> hit_points (sim_iter two_laser_board (sim_init two_laser_board)) = {(3, 0)}
   \<and> hit_points (sim_iter two_laser_board (sim_iter two_laser_board (sim_init two_laser_board)))
       = {(- 1, 2), (0, 1), (3, 0)}
   \<and> (0, 1) \<in> simulate_board two_laser_board
   \<and> (0, 1) \<notin> step_endpoints two_laser_board (sim_init two_laser_board) {}
   \<and> step_endpoints two_laser_board (sim_init two_laser_board) {}
       \<subseteq> simulate_board two_laser_board
   \<and> (2, 1) \<notin> simulate_board two_laser_board"
  using two_laser_second_iteration two_laser_hits two_laser_endpoints
    step_endpoints_simulated [of two_laser_board]
  by (simp add: two_laser_first_iteration) (simp add: two_laser_board_def)

section \<open>Properties of the search\<close>

lemma sim_slash_placed: "simulate_board (slash_placed pts) = {(3, 2), (4, 3)}"
  by (simp add: slash_placed_def mirror_board_def sim_eval lookup_eval) blast

lemma sim_oriented_a: "simulate_board (oriented_placed ''a'' pts) = {(3, 2), (4, 3)}"
  by (simp add: oriented_placed_def mirror_board_def sim_eval lookup_eval) blast

lemma sim_oriented_d: "(2, 1) \<in> simulate_board (oriented_placed ''d'' pts)"
  by (simp add: oriented_placed_def mirror_board_def sim_eval lookup_eval)

lemma positions_mirror: "get_placeable_positions (mirror_board pts) = Inr [(1, 1)]"
  by (simp add: mirror_board_def solver_eval lookup_eval)

lemma blocks_mirror: "get_blocks_to_place (mirror_board pts) = [REFLECT]"
  by (simp add: mirror_board_def solver_eval)

lemma candidates_mirror:
  "solve_candidates (\<lambda>xs. xs) (mirror_board pts) [(1, 1)] [REFLECT] = [Inr (slash_placed pts)]"
  by (simp add: slash_placed_def mirror_board_def solver_eval lookup_eval)

lemma hot_mirror: "hot_slots_by_empty_trace (mirror_board pts) = Inr {}"
  by (simp add: mirror_board_def solver_eval lookup_eval)

lemma sort_mirror: "sort_slots_target_first (mirror_board pts) [(1, 1)] = Inr [(1, 1)]"
  by (simp add: sort_slots_target_first_def sort_slots_by_laser_proximity_def hot_mirror)

lemma opt_candidates_mirror:
  "optimized_candidates (mirror_board pts) [(1, 1)] [REFLECT]
     = [Inr (oriented_placed ''a'' pts), Inr (oriented_placed ''d'' pts)]"
  by (simp add: oriented_placed_def mirror_board_def solver_eval lookup_eval)

lemma points_mirror: "points (mirror_board pts) = pts"
  by (simp add: mirror_board_def)

lemma solve_mirror_hit: "solve (\<lambda>xs. xs) (mirror_board {(4, 3)}) = Inr (Some (slash_placed {(4, 3)}))"
  by (simp add: solve_def positions_mirror blocks_mirror candidates_mirror points_mirror
        sim_slash_placed)

lemma solve_mirror_miss: "solve (\<lambda>xs. xs) (mirror_board {(2, 1)}) = Inr None"
  by (simp add: solve_def positions_mirror blocks_mirror candidates_mirror points_mirror
        sim_slash_placed)

lemma solve_optimized_mirror_hit:
  "solve_optimized (mirror_board {(4, 3)}) True = Inr (Some (oriented_placed ''a'' {(4, 3)}))"
  by (simp add: solve_optimized_def positions_mirror blocks_mirror sort_mirror
        opt_candidates_mirror points_mirror sim_oriented_a)

lemma solve_optimized_mirror_d:
  "solve_optimized (mirror_board {(2, 1)}) True = Inr (Some (oriented_placed ''d'' {(2, 1)}))"
  by (simp add: solve_optimized_def positions_mirror blocks_mirror sort_mirror
        opt_candidates_mirror points_mirror sim_oriented_a sim_oriented_d)

lemma first_solution_sound:
  "first_solution pts cs = Inr (Some tb) \<Longrightarrow> pts \<subseteq> simulate_board tb"
  by (induction pts cs rule: first_solution.induct) (auto split: if_splits)

lemma first_solution_skip_sound:
  "first_solution_skip pts cs = Inr (Some tb) \<Longrightarrow> pts \<subseteq> simulate_board tb"
  by (induction pts cs rule: first_solution_skip.induct) (auto split: if_splits)

text \<open>
  C1 (search soundness). Whenever \<open>solve\<close> (for any iteration order of the set of
  permutations) or \<open>solve_optimized\<close> (with or without the hot-slot ordering) returns a
  board, the points \<open>simulate_board\<close> visits on that board include every target point of
  the input board.
\<close>

theorem search_soundness:
  "(solve set_order b = Inr (Some tb) \<longrightarrow> points b \<subseteq> simulate_board tb)
   \<and> (solve_optimized b use_hot_slots = Inr (Some tb') \<longrightarrow> points b \<subseteq> simulate_board tb')"
proof (intro conjI impI)
  assume "solve set_order b = Inr (Some tb)"
  then show "points b \<subseteq> simulate_board tb"
    unfolding solve_def Let_def
    by (auto split: sum.splits if_splits dest: first_solution_sound)
next
  assume "solve_optimized b use_hot_slots = Inr (Some tb')"
  then show "points b \<subseteq> simulate_board tb'"
    unfolding solve_optimized_def Let_def
    by (auto split: sum.splits if_splits dest: first_solution_skip_sound)
qed

theorem search_soundness_witness:
  "solve (\<lambda>xs. xs) (mirror_board {(4, 3)}) = Inr (Some (slash_placed {(4, 3)}))
   \<and> solve_optimized (mirror_board {(4, 3)}) True = Inr (Some (oriented_placed ''a'' {(4, 3)}))
   \<and> points (mirror_board {(4, 3)}) \<subseteq> simulate_board (slash_placed {(4, 3)})
   \<and> points (mirror_board {(4, 3)}) \<subseteq> simulate_board (oriented_placed ''a'' {(4, 3)})"
  using search_soundness [of "\<lambda>xs. xs" "mirror_board {(4, 3)}" "slash_placed {(4, 3)}"
      True "oriented_placed ''a'' {(4, 3)}"]
    solve_mirror_hit solve_optimized_mirror_hit
  by simp

text \<open>
  C3 (both orientations of a Reflect block are tried), at the board \<open>mirror_board\<close> with
  the target \<open>(2, 1)\<close>. \<open>solve_optimized\<close> builds one candidate for \<open>a\<close> and one for \<open>d\<close>
  and returns the second, which solves the puzzle. \<open>solve\<close> builds a single candidate,
  with the block in \<open>fixed_blocks\<close> only, which the simulator reads as \<open>a\<close>; it returns
  \<open>None\<close> for a puzzle that has a solution. (The block list is \<open>[REFLECT]\<close>, whose set of
  permutations has one element, so every iteration order of that set is the same.)
\<close>

theorem solve_misses_backslash:
  "get_blocks_to_place (mirror_board {(2, 1)}) = [REFLECT]
   \<and> get_placeable_positions (mirror_board {(2, 1)}) = Inr [(1, 1)]
   \<and> optimized_candidates (mirror_board {(2, 1)}) [(1, 1)] [REFLECT]
       = [Inr (oriented_placed ''a'' {(2, 1)}), Inr (oriented_placed ''d'' {(2, 1)})]
   \<and> solve_optimized (mirror_board {(2, 1)}) True
       = Inr (Some (oriented_placed ''d'' {(2, 1)}))
   \<and> (2, 1) \<in> simulate_board (oriented_placed ''d'' {(2, 1)})
   \<and> solve_candidates (\<lambda>xs. xs) (mirror_board {(2, 1)}) [(1, 1)] [REFLECT]
       = [Inr (slash_placed {(2, 1)})]
   \<and> block_ch_at (slash_placed {(2, 1)}) 1 1 = Some ''a''
   \<and> simulate_board (slash_placed {(2, 1)}) = {(3, 2), (4, 3)}
   \<and> solve (\<lambda>xs. xs) (mirror_board {(2, 1)}) = Inr None"
proof -
  have "block_ch_at (slash_placed {(2, 1)}) 1 1 = Some ''a''"
    by (simp add: slash_placed_def mirror_board_def lookup_eval)
  then show ?thesis
    by (simp add: blocks_mirror positions_mirror opt_candidates_mirror
          solve_optimized_mirror_d sim_oriented_d candidates_mirror sim_slash_placed
          solve_mirror_miss)
qed

section \<open>Properties of the slot ordering\<close>

lemma insort_key_lex:
  assumes "sorted (map (\<lambda>x. (g x, f x)) zs)" and "\<forall>z\<in>set zs. f y \<le> f z"
  shows "sorted (map (\<lambda>x. (g x, f x)) (insort_key g y zs))"
  using assms
proof (induction zs)
  case Nil
  then show ?case by simp
next
  case (Cons z zs)
  show ?case
  proof (cases "g y \<le> g z")
    case True
    have "(g y, f y) \<le> (g z, f z)" using True Cons.prems(2) by auto
    moreover have "\<forall>w\<in>set zs. (g z, f z) \<le> (g w, f w)" using Cons.prems(1) by auto
    ultimately have "\<forall>w\<in>set (z # zs). (g y, f y) \<le> (g w, f w)"
      by (auto intro: order_trans)
    then show ?thesis using True Cons.prems(1) by simp
  next
    case False
    have "sorted (map (\<lambda>x. (g x, f x)) (insort_key g y zs))"
      using Cons.IH Cons.prems by simp
    moreover have "\<forall>w\<in>set (insort_key g y zs). (g z, f z) \<le> (g w, f w)"
      using False Cons.prems(1) by (auto simp: set_insort_key)
    ultimately show ?thesis using False by simp
  qed
qed

lemma sort_key_lex:
  "sorted (map f ys) \<Longrightarrow> sorted (map (\<lambda>x. (g x, f x)) (sort_key g ys))"
proof (induction ys)
  case Nil
  then show ?case by simp
next
  case (Cons y ys)
  have "sorted (map (\<lambda>x. (g x, f x)) (sort_key g ys))" using Cons by simp
  moreover have "\<forall>z\<in>set (sort_key g ys). f y \<le> f z" using Cons.prems by simp
  ultimately show ?case by (simp add: sort_key_simps insort_key_lex)
qed

lemma sort_slots_target_first_Inr:
  "sort_slots_target_first b slots = Inr ys \<Longrightarrow>
     \<exists>hot. hot_slots_by_empty_trace b = Inr hot
       \<and> ys = sort_key (dist_to_targets (points b))
                 (sort_key (\<lambda>rc. (rc \<notin> hot, fst rc, snd rc)) slots)"
  by (auto simp: sort_slots_target_first_def sort_slots_by_laser_proximity_def
        split: sum.splits)

text \<open>
  C5 (heuristic ordering), as the code has it. \<open>sort_slots_target_first\<close> returns a
  permutation of the slots it is given. The list is sorted by ascending Manhattan
  distance from the cell's centre \<open>(2c + 1, 2r + 1)\<close> to the nearest target point: the
  distance is the primary key. Cells at the same distance are ordered hot cells first,
  and then by (row, column).
\<close>

theorem sort_slots_target_first_order:
  assumes "sort_slots_target_first b slots = Inr ys"
  shows "mset ys = mset slots
         \<and> (\<exists>hot. hot_slots_by_empty_trace b = Inr hot
              \<and> sorted (map (\<lambda>rc. (dist_to_targets (points b) rc, rc \<notin> hot, fst rc, snd rc)) ys))"
proof -
  from sort_slots_target_first_Inr [OF assms] obtain hot where
    hot: "hot_slots_by_empty_trace b = Inr hot"
    and ys: "ys = sort_key (dist_to_targets (points b))
                    (sort_key (\<lambda>rc. (rc \<notin> hot, fst rc, snd rc)) slots)"
    by blast
  have "mset ys = mset slots" using ys by simp
  moreover have "sorted (map (\<lambda>rc. (dist_to_targets (points b) rc, rc \<notin> hot, fst rc, snd rc)) ys)"
    unfolding ys by (rule sort_key_lex) simp
  ultimately show ?thesis using hot by blast
qed

lemma positions_strip: "get_placeable_positions strip_board = Inr [(0, 0), (0, 1), (0, 2)]"
  by (simp add: strip_board_def solver_eval lookup_eval)

lemma hot_strip: "hot_slots_by_empty_trace strip_board = Inr {(0, 0)}"
  by (simp add: strip_board_def solver_eval lookup_eval)

lemma points_strip: "points strip_board = {(5, 1)}"
  by (simp add: strip_board_def)

lemma sort_strip:
  "sort_slots_target_first strip_board [(0, 0), (0, 1), (0, 2)] = Inr [(0, 2), (0, 1), (0, 0)]"
  by (simp add: sort_slots_target_first_def sort_slots_by_laser_proximity_def hot_strip
        dist_to_targets_def points_strip)

theorem sort_slots_target_first_order_witness:
  "sort_slots_target_first strip_board [(0, 0), (0, 1), (0, 2)] = Inr [(0, 2), (0, 1), (0, 0)]
   \<and> mset [(0, 2), (0, 1), (0, 0)] = mset [(0, 0), (0, 1), (0 :: int, 2 :: int)]
   \<and> sorted (map (\<lambda>rc. (dist_to_targets (points strip_board) rc, rc \<notin> {(0, 0)}, fst rc, snd rc))
               [(0, 2), (0, 1), (0, 0)])"
  using sort_slots_target_first_order [OF sort_strip] sort_strip hot_strip
  by (simp add: points_strip)

text \<open>
  The claim as the specification states it, hot cells before all other cells as the
  primary key, fails on \<open>strip_board\<close>: its three open cells are the slots, the only hot
  cell is \<open>(0, 0)\<close>, and it comes last, after two cells that are not hot and nearer to the
  target.
\<close>

theorem hot_first_counterexample:
  "get_placeable_positions strip_board = Inr [(0, 0), (0, 1), (0, 2)]
   \<and> hot_slots_by_empty_trace strip_board = Inr {(0, 0)}
   \<and> sort_slots_target_first strip_board [(0, 0), (0, 1), (0, 2)]
       = Inr [(0, 2), (0, 1), (0, 0)]
   \<and> \<not> sorted (map (\<lambda>rc. rc \<notin> {(0, 0)}) [(0, 2), (0, 1), (0 :: int, 0 :: int)])"
  by (simp add: positions_strip hot_strip sort_strip)

section \<open>Lasers with direction (0, 0)\<close>









end
